theory Spec2Isabelle
  imports Complex_Main "HOL-Library.Log_Nat"
begin

section \<open>The rental database and its clients\<close>

text \<open>
  The persistent state of the application is the PostgreSQL schema of the migration
  "Fix Database Schema for Aryeh Rentals" (tables \<^verbatim>\<open>profiles\<close>, \<^verbatim>\<open>vehicles\<close>,
  \<^verbatim>\<open>bookings\<close>, \<^verbatim>\<open>favorites\<close>, \<^verbatim>\<open>reviews\<close>, their constraints, row-level-security
  policies and triggers). The screens read and write it through the query client. The
  earlier migration "Fix Database Schema" creates \<^verbatim>\<open>profiles\<close>, \<^verbatim>\<open>vehicles\<close>,
  \<^verbatim>\<open>bookings\<close> and \<^verbatim>\<open>favorites\<close> without the \<^verbatim>\<open>CHECK\<close> constraints and has no
  \<^verbatim>\<open>reviews\<close>; the later one drops and recreates these tables and is the schema in force.

  A table is the list of its rows. \<^verbatim>\<open>uuid\<close> values are natural numbers, \<^verbatim>\<open>timestamptz\<close>
  values are integers (a point on the time line), \<^verbatim>\<open>numeric\<close> values are the rationals
  they denote (where the database rounds, the rounding is written out). A nullable column is
  an \<open>option\<close>, \<open>None\<close> being \<^verbatim>\<open>NULL\<close>. Columns that nothing below reads or writes
  (image, description, features, coordinates, times of day and the like) are left out.
\<close>

subsection \<open>Rows\<close>

type_synonym uuid = nat
type_synonym timestamptz = int
type_synonym numeric = rat

text \<open>A row of \<^verbatim>\<open>auth.users\<close>, the table of the authentication provider.\<close>

record auth_user =
  u_id :: uuid
  u_email :: string
  u_full_name :: "string option"   \<comment> \<open>\<^verbatim>\<open>raw_user_meta_data->>'full_name'\<close>\<close>
  u_avatar_url :: "string option"  \<comment> \<open>\<^verbatim>\<open>user_metadata.avatar_url\<close>\<close>

record profile =
  p_id :: uuid
  p_email :: string
  p_full_name :: "string option"
  p_avatar_url :: "string option"
  p_is_admin :: "bool option"

record vehicle =
  v_id :: uuid
  v_name :: string
  v_type :: string
  v_brand :: string
  v_model :: string
  v_year :: int
  v_price_per_day :: numeric
  v_location :: string
  v_available :: "bool option"
  v_rating :: "numeric option"
  v_total_reviews :: "int option"

record booking =
  b_id :: uuid
  b_user_id :: uuid
  b_vehicle_id :: uuid
  b_start_date :: timestamptz
  b_end_date :: timestamptz
  b_pickup_location :: string
  b_total_price :: numeric
  b_status :: string
  b_payment_status :: string
  b_fuel_level_pickup :: "int option"
  b_fuel_level_dropoff :: "int option"
  b_created_at :: "timestamptz option"

record favorite =
  f_id :: uuid
  f_user_id :: uuid
  f_vehicle_id :: uuid
  f_created_at :: "timestamptz option"

record review =
  r_id :: uuid
  r_user_id :: uuid
  r_vehicle_id :: uuid
  r_booking_id :: uuid
  r_rating :: int
  r_comment :: "string option"

record db =
  auth_users :: "auth_user list"
  profiles :: "profile list"
  vehicles :: "vehicle list"
  bookings :: "booking list"
  favorites :: "favorite list"
  reviews :: "review list"

text \<open>
  A statement that violates a policy or a constraint is aborted with an error that names
  the table (policies) or the constraint.
\<close>

datatype pg_error =
  RlsViolation string
  | CheckViolation string
  | UniqueViolation string
  | ForeignKeyViolation string
  | InfiniteRecursion string  \<comment> \<open>"infinite recursion detected in policy for relation ..."\<close>

subsection \<open>The session's identity\<close>

text \<open>
  The sub-select \<^verbatim>\<open>EXISTS (SELECT 1 FROM profiles WHERE profiles.id = auth.uid() AND
  profiles.is_admin = true)\<close> that every admin policy repeats, as a condition on the
  table: the session's own profile is there and says so.
\<close>

definition is_admin_profile :: "db \<Rightarrow> uuid \<Rightarrow> bool" where
  "is_admin_profile d uid =
     list_ex (\<lambda>p. p_id p = uid \<and> p_is_admin p = Some True) (profiles d)"

subsection \<open>Table \<^verbatim>\<open>bookings\<close>\<close>

text \<open>
  The \<^verbatim>\<open>CHECK\<close> constraints of \<^verbatim>\<open>bookings\<close>; the result is the first violated one, in
  the order of the constraint names. A \<^verbatim>\<open>CHECK\<close> over a \<^verbatim>\<open>NULL\<close> passes.
\<close>

definition fuel_level_ok :: "int option \<Rightarrow> bool" where
  "fuel_level_ok l = (case l of None \<Rightarrow> True | Some x \<Rightarrow> x \<ge> 0 \<and> x \<le> 100)"

definition bookings_check :: "booking \<Rightarrow> pg_error option" where
  "bookings_check b =
     (if \<not> fuel_level_ok (b_fuel_level_dropoff b)
        then Some (CheckViolation ''bookings_fuel_level_dropoff_check'')
      else if \<not> fuel_level_ok (b_fuel_level_pickup b)
        then Some (CheckViolation ''bookings_fuel_level_pickup_check'')
      else if b_payment_status b \<notin> set [''pending'', ''completed'', ''failed'', ''refunded'']
        then Some (CheckViolation ''bookings_payment_status_check'')
      else if b_status b \<notin> set [''pending'', ''confirmed'', ''active'', ''completed'', ''cancelled'']
        then Some (CheckViolation ''bookings_status_check'')
      else if \<not> b_end_date b > b_start_date b
        then Some (CheckViolation ''valid_dates'')
      else None)"

text \<open>
  \<^verbatim>\<open>INSERT INTO bookings\<close> of one row, all columns given or defaulted: \<^verbatim>\<open>CHECK\<close>
  constraints, then the primary key, then the foreign keys.
\<close>

definition insert_into_bookings :: "booking \<Rightarrow> db \<Rightarrow> pg_error + db" where
  "insert_into_bookings b d =
     (case bookings_check b of
        Some e \<Rightarrow> Inl e
      | None \<Rightarrow>
          if list_ex (\<lambda>x. b_id x = b_id b) (bookings d)
            then Inl (UniqueViolation ''bookings_pkey'')
          else if \<not> list_ex (\<lambda>u. u_id u = b_user_id b) (auth_users d)
            then Inl (ForeignKeyViolation ''bookings_user_id_fkey'')
          else if \<not> list_ex (\<lambda>v. v_id v = b_vehicle_id b) (vehicles d)
            then Inl (ForeignKeyViolation ''bookings_vehicle_id_fkey'')
          else Inr (d\<lparr>bookings := bookings d @ [b]\<rparr>))"

text \<open>
  \<^verbatim>\<open>UPDATE bookings SET ... WHERE id = bid\<close>, \<open>new\<close> being the row after the
  assignments. No row with that id: nothing is updated and the statement succeeds. A
  foreign key is looked up again only when its column changes; \<^verbatim>\<open>reviews.booking_id\<close>
  references the row, so its id cannot change while a review points at it.
\<close>

definition update_bookings :: "uuid \<Rightarrow> booking \<Rightarrow> db \<Rightarrow> pg_error + db" where
  "update_bookings bid new d =
     (case find (\<lambda>x. b_id x = bid) (bookings d) of
        None \<Rightarrow> Inr d
      | Some old \<Rightarrow>
          (case bookings_check new of
             Some e \<Rightarrow> Inl e
           | None \<Rightarrow>
               if list_ex (\<lambda>x. b_id x \<noteq> bid \<and> b_id x = b_id new) (bookings d)
                 then Inl (UniqueViolation ''bookings_pkey'')
               else if b_user_id new \<noteq> b_user_id old
                     \<and> \<not> list_ex (\<lambda>u. u_id u = b_user_id new) (auth_users d)
                 then Inl (ForeignKeyViolation ''bookings_user_id_fkey'')
               else if b_vehicle_id new \<noteq> b_vehicle_id old
                     \<and> \<not> list_ex (\<lambda>v. v_id v = b_vehicle_id new) (vehicles d)
                 then Inl (ForeignKeyViolation ''bookings_vehicle_id_fkey'')
               else if b_id new \<noteq> bid \<and> list_ex (\<lambda>r. r_booking_id r = bid) (reviews d)
                 then Inl (ForeignKeyViolation ''reviews_booking_id_fkey'')
               else Inr (d\<lparr>bookings := map (\<lambda>x. if b_id x = bid then new else x) (bookings d)\<rparr>)))"

subsection \<open>Table \<^verbatim>\<open>vehicles\<close> and the rating trigger\<close>

definition vehicles_check :: "vehicle \<Rightarrow> pg_error option" where
  "vehicles_check v =
     (case v_rating v of
        None \<Rightarrow> None
      | Some x \<Rightarrow> if x \<ge> 0 \<and> x \<le> 5 then None else Some (CheckViolation ''vehicles_rating_check''))"

text \<open>
  Division of \<^verbatim>\<open>numeric\<close> values is not exact: the database first selects the number of
  decimal places of the quotient and then rounds the quotient to it, halves away from
  zero. For two whole numbers the scale is chosen from their digits in base 10000, the
  base \<^verbatim>\<open>numeric\<close> stores them in: \<open>numeric_weight\<close> is the position of the leading such
  digit and \<open>numeric_first_digit\<close> that digit (both 0 for the number 0). The quotient's
  weight is estimated as the difference of the weights, less one when the dividend's
  leading digit is not the greater, and the scale is 16 less four times the estimate,
  kept between 0 and 1000.
\<close>

definition numeric_weight :: "nat \<Rightarrow> nat" where
  "numeric_weight n = floorlog 10000 n - 1"

definition numeric_first_digit :: "nat \<Rightarrow> nat" where
  "numeric_first_digit n = n div 10000 ^ numeric_weight n"

definition select_div_scale :: "nat \<Rightarrow> nat \<Rightarrow> nat" where
  "select_div_scale a b =
     (let qweight = int (numeric_weight a) - int (numeric_weight b)
                    - (if numeric_first_digit a \<le> numeric_first_digit b then 1 else 0);
          rscale = 16 - qweight * 4
      in nat (min 1000 (max 0 rscale)))"

text \<open>The quotient of two whole \<^verbatim>\<open>numeric\<close> values, the divisor not 0.\<close>

definition numeric_div :: "int \<Rightarrow> int \<Rightarrow> numeric" where
  "numeric_div a b =
     (let s = select_div_scale (nat \<bar>a\<bar>) (nat \<bar>b\<bar>)
      in of_int (sgn a * sgn b * ((2 * \<bar>a\<bar> * 10 ^ s + \<bar>b\<bar>) div (2 * \<bar>b\<bar>))) / of_int (10 ^ s))"

text \<open>
  \<^verbatim>\<open>AVG(rating::numeric)\<close> over the ratings \<open>xs\<close>: \<^verbatim>\<open>NULL\<close> over no rows, otherwise their sum
  divided by their number as \<^verbatim>\<open>numeric\<close> values. \<^verbatim>\<open>COALESCE\<close> takes its first non-null
  argument.
\<close>

definition sql_avg :: "int list \<Rightarrow> numeric option" where
  "sql_avg xs = (if xs = [] then None else Some (numeric_div (sum_list xs) (int (length xs))))"

definition coalesce :: "'a option \<Rightarrow> 'a \<Rightarrow> 'a" where
  "coalesce x y = (case x of Some v \<Rightarrow> v | None \<Rightarrow> y)"

text \<open>
  The trigger function \<^verbatim>\<open>update_vehicle_rating\<close>, run after each inserted, updated or
  deleted row of \<^verbatim>\<open>reviews\<close>. \<open>new\<close> and \<open>old\<close> are the trigger's \<^verbatim>\<open>NEW\<close> and \<^verbatim>\<open>OLD\<close>
  (\<open>None\<close> where the operation has none). The vehicle it recomputes is
  \<^verbatim>\<open>COALESCE(NEW.vehicle_id, OLD.vehicle_id)\<close>; its \<^verbatim>\<open>UPDATE vehicles\<close> is subject to the
  \<^verbatim>\<open>CHECK\<close> on \<^verbatim>\<open>rating\<close> like any other.
\<close>

definition update_vehicle_rating :: "review option \<Rightarrow> review option \<Rightarrow> db \<Rightarrow> pg_error + db" where
  "update_vehicle_rating new old d =
     (case (case new of Some n \<Rightarrow> Some (r_vehicle_id n) | None \<Rightarrow> map_option r_vehicle_id old) of
        None \<Rightarrow> Inr d
      | Some vid \<Rightarrow>
          let rs = filter (\<lambda>r. r_vehicle_id r = vid) (reviews d);
              rating = coalesce (sql_avg (map r_rating rs)) 0;
              total = int (length rs)
          in if list_ex (\<lambda>v. v_id v = vid) (vehicles d) \<and> \<not> (rating \<ge> 0 \<and> rating \<le> 5)
               then Inl (CheckViolation ''vehicles_rating_check'')
             else Inr (d\<lparr>vehicles :=
                    map (\<lambda>v. if v_id v = vid
                              then v\<lparr>v_rating := Some rating, v_total_reviews := Some total\<rparr>
                              else v) (vehicles d)\<rparr>))"

text \<open>The trigger calls for the rows a cascading delete has removed from \<^verbatim>\<open>reviews\<close>.\<close>

fun deleted_review_triggers :: "review list \<Rightarrow> db \<Rightarrow> pg_error + db" where
  "deleted_review_triggers [] d = Inr d"
| "deleted_review_triggers (r # rs) d =
     (case update_vehicle_rating None (Some r) d of
        Inl e \<Rightarrow> Inl e
      | Inr d' \<Rightarrow> deleted_review_triggers rs d')"

definition insert_into_vehicles :: "vehicle \<Rightarrow> db \<Rightarrow> pg_error + db" where
  "insert_into_vehicles v d =
     (case vehicles_check v of
        Some e \<Rightarrow> Inl e
      | None \<Rightarrow>
          if list_ex (\<lambda>x. v_id x = v_id v) (vehicles d)
            then Inl (UniqueViolation ''vehicles_pkey'')
          else Inr (d\<lparr>vehicles := vehicles d @ [v]\<rparr>))"

definition update_vehicles :: "uuid \<Rightarrow> vehicle \<Rightarrow> db \<Rightarrow> pg_error + db" where
  "update_vehicles vid new d =
     (case find (\<lambda>x. v_id x = vid) (vehicles d) of
        None \<Rightarrow> Inr d
      | Some old \<Rightarrow>
          (case vehicles_check new of
             Some e \<Rightarrow> Inl e
           | None \<Rightarrow>
               if list_ex (\<lambda>x. v_id x \<noteq> vid \<and> v_id x = v_id new) (vehicles d)
                 then Inl (UniqueViolation ''vehicles_pkey'')
               else if v_id new \<noteq> vid \<and> list_ex (\<lambda>b. b_vehicle_id b = vid) (bookings d)
                 then Inl (ForeignKeyViolation ''bookings_vehicle_id_fkey'')
               else if v_id new \<noteq> vid \<and> list_ex (\<lambda>f. f_vehicle_id f = vid) (favorites d)
                 then Inl (ForeignKeyViolation ''favorites_vehicle_id_fkey'')
               else if v_id new \<noteq> vid \<and> list_ex (\<lambda>r. r_vehicle_id r = vid) (reviews d)
                 then Inl (ForeignKeyViolation ''reviews_vehicle_id_fkey'')
               else Inr (d\<lparr>vehicles := map (\<lambda>x. if v_id x = vid then new else x) (vehicles d)\<rparr>)))"

text \<open>
  \<^verbatim>\<open>DELETE FROM vehicles WHERE id = vid\<close>: \<^verbatim>\<open>ON DELETE CASCADE\<close> removes the vehicle's
  bookings and favorites, and the reviews of the vehicle and of the removed bookings; the
  rating trigger then runs for every removed review.
\<close>

definition delete_from_vehicles :: "uuid \<Rightarrow> db \<Rightarrow> pg_error + db" where
  "delete_from_vehicles vid d =
     (let gone_b = filter (\<lambda>b. b_vehicle_id b = vid) (bookings d);
          doomed = (\<lambda>r. r_vehicle_id r = vid \<or> list_ex (\<lambda>b. b_id b = r_booking_id r) gone_b)
      in deleted_review_triggers (filter doomed (reviews d))
           (d\<lparr>vehicles := filter (\<lambda>v. v_id v \<noteq> vid) (vehicles d),
              bookings := filter (\<lambda>b. b_vehicle_id b \<noteq> vid) (bookings d),
              favorites := filter (\<lambda>f. f_vehicle_id f \<noteq> vid) (favorites d),
              reviews := filter (\<lambda>r. \<not> doomed r) (reviews d)\<rparr>))"

text \<open>\<^verbatim>\<open>DELETE FROM bookings WHERE id = bid\<close>, cascading to the booking's reviews.\<close>

definition delete_from_bookings :: "uuid \<Rightarrow> db \<Rightarrow> pg_error + db" where
  "delete_from_bookings bid d =
     deleted_review_triggers (filter (\<lambda>r. r_booking_id r = bid) (reviews d))
       (d\<lparr>bookings := filter (\<lambda>b. b_id b \<noteq> bid) (bookings d),
          reviews := filter (\<lambda>r. r_booking_id r \<noteq> bid) (reviews d)\<rparr>)"

subsection \<open>Table \<^verbatim>\<open>reviews\<close>\<close>

definition reviews_check :: "review \<Rightarrow> pg_error option" where
  "reviews_check r =
     (if r_rating r \<ge> 1 \<and> r_rating r \<le> 5 then None
      else Some (CheckViolation ''reviews_rating_check''))"

text \<open>
  \<^verbatim>\<open>INSERT INTO reviews\<close> of one row: \<^verbatim>\<open>CHECK\<close>, primary key, \<^verbatim>\<open>UNIQUE(user_id,
  booking_id)\<close>, foreign keys, and then the rating trigger with \<^verbatim>\<open>NEW\<close> the row.
\<close>

definition insert_into_reviews :: "review \<Rightarrow> db \<Rightarrow> pg_error + db" where
  "insert_into_reviews r d =
     (case reviews_check r of
        Some e \<Rightarrow> Inl e
      | None \<Rightarrow>
          if list_ex (\<lambda>x. r_id x = r_id r) (reviews d)
            then Inl (UniqueViolation ''reviews_pkey'')
          else if list_ex (\<lambda>x. r_user_id x = r_user_id r \<and> r_booking_id x = r_booking_id r) (reviews d)
            then Inl (UniqueViolation ''reviews_user_id_booking_id_key'')
          else if \<not> list_ex (\<lambda>u. u_id u = r_user_id r) (auth_users d)
            then Inl (ForeignKeyViolation ''reviews_user_id_fkey'')
          else if \<not> list_ex (\<lambda>v. v_id v = r_vehicle_id r) (vehicles d)
            then Inl (ForeignKeyViolation ''reviews_vehicle_id_fkey'')
          else if \<not> list_ex (\<lambda>b. b_id b = r_booking_id r) (bookings d)
            then Inl (ForeignKeyViolation ''reviews_booking_id_fkey'')
          else update_vehicle_rating (Some r) None (d\<lparr>reviews := reviews d @ [r]\<rparr>))"

text \<open>
  \<^verbatim>\<open>UPDATE reviews SET ... WHERE id = rid\<close>, \<open>new\<close> being the row after the assignments;
  the trigger runs with \<^verbatim>\<open>NEW\<close> the new row and \<^verbatim>\<open>OLD\<close> the old one.
\<close>

definition update_reviews :: "uuid \<Rightarrow> review \<Rightarrow> db \<Rightarrow> pg_error + db" where
  "update_reviews rid new d =
     (case find (\<lambda>x. r_id x = rid) (reviews d) of
        None \<Rightarrow> Inr d
      | Some old \<Rightarrow>
          (case reviews_check new of
             Some e \<Rightarrow> Inl e
           | None \<Rightarrow>
               if list_ex (\<lambda>x. r_id x \<noteq> rid \<and> r_id x = r_id new) (reviews d)
                 then Inl (UniqueViolation ''reviews_pkey'')
               else if list_ex (\<lambda>x. r_id x \<noteq> rid \<and> r_user_id x = r_user_id new
                                  \<and> r_booking_id x = r_booking_id new) (reviews d)
                 then Inl (UniqueViolation ''reviews_user_id_booking_id_key'')
               else if r_user_id new \<noteq> r_user_id old
                     \<and> \<not> list_ex (\<lambda>u. u_id u = r_user_id new) (auth_users d)
                 then Inl (ForeignKeyViolation ''reviews_user_id_fkey'')
               else if r_vehicle_id new \<noteq> r_vehicle_id old
                     \<and> \<not> list_ex (\<lambda>v. v_id v = r_vehicle_id new) (vehicles d)
                 then Inl (ForeignKeyViolation ''reviews_vehicle_id_fkey'')
               else if r_booking_id new \<noteq> r_booking_id old
                     \<and> \<not> list_ex (\<lambda>b. b_id b = r_booking_id new) (bookings d)
                 then Inl (ForeignKeyViolation ''reviews_booking_id_fkey'')
               else update_vehicle_rating (Some new) (Some old)
                      (d\<lparr>reviews := map (\<lambda>x. if r_id x = rid then new else x) (reviews d)\<rparr>)))"

text \<open>\<^verbatim>\<open>DELETE FROM reviews WHERE id = rid\<close>; the trigger runs with \<^verbatim>\<open>OLD\<close> the removed row.\<close>

definition delete_from_reviews :: "uuid \<Rightarrow> db \<Rightarrow> pg_error + db" where
  "delete_from_reviews rid d =
     (case find (\<lambda>x. r_id x = rid) (reviews d) of
        None \<Rightarrow> Inr d
      | Some old \<Rightarrow>
          update_vehicle_rating None (Some old)
            (d\<lparr>reviews := filter (\<lambda>x. r_id x \<noteq> rid) (reviews d)\<rparr>))"

subsection \<open>Table \<^verbatim>\<open>favorites\<close>\<close>

definition insert_into_favorites :: "favorite \<Rightarrow> db \<Rightarrow> pg_error + db" where
  "insert_into_favorites f d =
     (if list_ex (\<lambda>x. f_id x = f_id f) (favorites d)
        then Inl (UniqueViolation ''favorites_pkey'')
      else if list_ex (\<lambda>x. f_user_id x = f_user_id f \<and> f_vehicle_id x = f_vehicle_id f) (favorites d)
        then Inl (UniqueViolation ''favorites_user_id_vehicle_id_key'')
      else if \<not> list_ex (\<lambda>u. u_id u = f_user_id f) (auth_users d)
        then Inl (ForeignKeyViolation ''favorites_user_id_fkey'')
      else if \<not> list_ex (\<lambda>v. v_id v = f_vehicle_id f) (vehicles d)
        then Inl (ForeignKeyViolation ''favorites_vehicle_id_fkey'')
      else Inr (d\<lparr>favorites := favorites d @ [f]\<rparr>))"

definition update_favorites :: "uuid \<Rightarrow> favorite \<Rightarrow> db \<Rightarrow> pg_error + db" where
  "update_favorites fid new d =
     (case find (\<lambda>x. f_id x = fid) (favorites d) of
        None \<Rightarrow> Inr d
      | Some old \<Rightarrow>
          if list_ex (\<lambda>x. f_id x \<noteq> fid \<and> f_id x = f_id new) (favorites d)
            then Inl (UniqueViolation ''favorites_pkey'')
          else if list_ex (\<lambda>x. f_id x \<noteq> fid \<and> f_user_id x = f_user_id new
                             \<and> f_vehicle_id x = f_vehicle_id new) (favorites d)
            then Inl (UniqueViolation ''favorites_user_id_vehicle_id_key'')
          else if f_user_id new \<noteq> f_user_id old
                \<and> \<not> list_ex (\<lambda>u. u_id u = f_user_id new) (auth_users d)
            then Inl (ForeignKeyViolation ''favorites_user_id_fkey'')
          else if f_vehicle_id new \<noteq> f_vehicle_id old
                \<and> \<not> list_ex (\<lambda>v. v_id v = f_vehicle_id new) (vehicles d)
            then Inl (ForeignKeyViolation ''favorites_vehicle_id_fkey'')
          else Inr (d\<lparr>favorites := map (\<lambda>x. if f_id x = fid then new else x) (favorites d)\<rparr>))"

definition delete_from_favorites :: "uuid \<Rightarrow> db \<Rightarrow> pg_error + db" where
  "delete_from_favorites fid d = Inr (d\<lparr>favorites := filter (\<lambda>x. f_id x \<noteq> fid) (favorites d)\<rparr>)"

subsection \<open>Tables \<^verbatim>\<open>profiles\<close> and \<^verbatim>\<open>auth.users\<close>\<close>

definition insert_into_profiles :: "profile \<Rightarrow> db \<Rightarrow> pg_error + db" where
  "insert_into_profiles p d =
     (if list_ex (\<lambda>x. p_id x = p_id p) (profiles d)
        then Inl (UniqueViolation ''profiles_pkey'')
      else if list_ex (\<lambda>x. p_email x = p_email p) (profiles d)
        then Inl (UniqueViolation ''profiles_email_key'')
      else if \<not> list_ex (\<lambda>u. u_id u = p_id p) (auth_users d)
        then Inl (ForeignKeyViolation ''profiles_id_fkey'')
      else Inr (d\<lparr>profiles := profiles d @ [p]\<rparr>))"

definition update_profiles :: "uuid \<Rightarrow> profile \<Rightarrow> db \<Rightarrow> pg_error + db" where
  "update_profiles pid new d =
     (case find (\<lambda>x. p_id x = pid) (profiles d) of
        None \<Rightarrow> Inr d
      | Some old \<Rightarrow>
          if list_ex (\<lambda>x. p_id x \<noteq> pid \<and> p_id x = p_id new) (profiles d)
            then Inl (UniqueViolation ''profiles_pkey'')
          else if list_ex (\<lambda>x. p_id x \<noteq> pid \<and> p_email x = p_email new) (profiles d)
            then Inl (UniqueViolation ''profiles_email_key'')
          else if p_id new \<noteq> pid \<and> \<not> list_ex (\<lambda>u. u_id u = p_id new) (auth_users d)
            then Inl (ForeignKeyViolation ''profiles_id_fkey'')
          else Inr (d\<lparr>profiles := map (\<lambda>x. if p_id x = pid then new else x) (profiles d)\<rparr>))"

definition delete_from_profiles :: "uuid \<Rightarrow> db \<Rightarrow> pg_error + db" where
  "delete_from_profiles pid d = Inr (d\<lparr>profiles := filter (\<lambda>x. p_id x \<noteq> pid) (profiles d)\<rparr>)"

text \<open>The one address that is an administrator wherever it signs up or in.\<close>

definition admin_email :: string where
  "admin_email = ''sandewilliam594@gmail.com''"

text \<open>
  The trigger function \<^verbatim>\<open>handle_new_user\<close>, run after each row inserted into
  \<^verbatim>\<open>auth.users\<close>; \<open>new\<close> is that row.
\<close>

definition handle_new_user :: "auth_user \<Rightarrow> db \<Rightarrow> pg_error + db" where
  "handle_new_user new d =
     insert_into_profiles
       \<lparr>p_id = u_id new,
        p_email = u_email new,
        p_full_name = Some (coalesce (u_full_name new) []),
        p_avatar_url = None,
        p_is_admin = Some (if u_email new = admin_email then True else False)\<rparr> d"

definition insert_into_auth_users :: "auth_user \<Rightarrow> db \<Rightarrow> pg_error + db" where
  "insert_into_auth_users u d =
     (if list_ex (\<lambda>x. u_id x = u_id u) (auth_users d)
        then Inl (UniqueViolation ''users_pkey'')
      else handle_new_user u (d\<lparr>auth_users := auth_users d @ [u]\<rparr>))"

text \<open>
  \<^verbatim>\<open>DELETE FROM auth.users WHERE id = uid\<close>: every table references \<^verbatim>\<open>auth.users\<close> with
  \<^verbatim>\<open>ON DELETE CASCADE\<close>.
\<close>

definition delete_from_auth_users :: "uuid \<Rightarrow> db \<Rightarrow> pg_error + db" where
  "delete_from_auth_users uid d =
     (let gone_b = filter (\<lambda>b. b_user_id b = uid) (bookings d);
          doomed = (\<lambda>r. r_user_id r = uid \<or> list_ex (\<lambda>b. b_id b = r_booking_id r) gone_b)
      in deleted_review_triggers (filter doomed (reviews d))
           (d\<lparr>auth_users := filter (\<lambda>u. u_id u \<noteq> uid) (auth_users d),
              profiles := filter (\<lambda>p. p_id p \<noteq> uid) (profiles d),
              bookings := filter (\<lambda>b. b_user_id b \<noteq> uid) (bookings d),
              favorites := filter (\<lambda>f. f_user_id f \<noteq> uid) (favorites d),
              reviews := filter (\<lambda>r. \<not> doomed r) (reviews d)\<rparr>))"

subsection \<open>The database after the migration, and the states writes lead to\<close>

text \<open>
  The sample vehicles the migration inserts, with the ratings and review counts it gives
  them; \<open>gen\<close> stands for the successive values of \<^verbatim>\<open>gen_random_uuid()\<close>.
\<close>

definition sample_vehicles :: "(nat \<Rightarrow> uuid) \<Rightarrow> vehicle list" where
  "sample_vehicles gen =
     [\<lparr>v_id = gen 0, v_name = ''Toyota Camry 2024'', v_type = ''Sedan'', v_brand = ''Toyota'',
       v_model = ''Camry'', v_year = 2024, v_price_per_day = 45, v_location = ''Downtown'',
       v_available = Some True, v_rating = Some (45 / 10), v_total_reviews = Some 23\<rparr>,
      \<lparr>v_id = gen 1, v_name = ''Honda CR-V 2023'', v_type = ''SUV'', v_brand = ''Honda'',
       v_model = ''CR-V'', v_year = 2023, v_price_per_day = 65, v_location = ''Airport'',
       v_available = Some True, v_rating = Some (47 / 10), v_total_reviews = Some 31\<rparr>,
      \<lparr>v_id = gen 2, v_name = ''BMW 3 Series 2024'', v_type = ''Luxury'', v_brand = ''BMW'',
       v_model = ''3 Series'', v_year = 2024, v_price_per_day = 85, v_location = ''City Center'',
       v_available = Some True, v_rating = Some (48 / 10), v_total_reviews = Some 18\<rparr>,
      \<lparr>v_id = gen 3, v_name = ''Ford F-150 2023'', v_type = ''Truck'', v_brand = ''Ford'',
       v_model = ''F-150'', v_year = 2023, v_price_per_day = 75, v_location = ''Industrial District'',
       v_available = Some True, v_rating = Some (46 / 10), v_total_reviews = Some 27\<rparr>,
      \<lparr>v_id = gen 4, v_name = ''Tesla Model 3 2024'', v_type = ''Electric'', v_brand = ''Tesla'',
       v_model = ''Model 3'', v_year = 2024, v_price_per_day = 95, v_location = ''Tech District'',
       v_available = Some True, v_rating = Some (49 / 10), v_total_reviews = Some 42\<rparr>,
      \<lparr>v_id = gen 5, v_name = ''Jeep Wrangler 2023'', v_type = ''SUV'', v_brand = ''Jeep'',
       v_model = ''Wrangler'', v_year = 2023, v_price_per_day = 70, v_location = ''Adventure Center'',
       v_available = Some True, v_rating = Some (44 / 10), v_total_reviews = Some 19\<rparr>]"

text \<open>
  The migration drops and recreates the tables, so they start empty but for the sample
  vehicles; \<^verbatim>\<open>auth.users\<close> is not the migration's and keeps the rows \<open>us\<close> it had.
\<close>

definition initial_db :: "auth_user list \<Rightarrow> (nat \<Rightarrow> uuid) \<Rightarrow> db" where
  "initial_db us gen =
     \<lparr>auth_users = us, profiles = [], vehicles = sample_vehicles gen,
      bookings = [], favorites = [], reviews = []\<rparr>"

text \<open>
  One write of one row, as the database executes it for any role: constraints and
  triggers apply to every session, the policies of the next subsection only narrow what
  the role \<^verbatim>\<open>authenticated\<close> may ask for.
\<close>

datatype db_write =
  InsertAuthUser auth_user | DeleteAuthUser uuid
  | InsertProfile profile | UpdateProfile uuid profile | DeleteProfile uuid
  | InsertVehicle vehicle | UpdateVehicle uuid vehicle | DeleteVehicle uuid
  | InsertBooking booking | UpdateBooking uuid booking | DeleteBooking uuid
  | InsertFavorite favorite | UpdateFavorite uuid favorite | DeleteFavorite uuid
  | InsertReview review | UpdateReview uuid review | DeleteReview uuid

fun exec_write :: "db_write \<Rightarrow> db \<Rightarrow> pg_error + db" where
  "exec_write (InsertAuthUser u) d = insert_into_auth_users u d"
| "exec_write (DeleteAuthUser uid) d = delete_from_auth_users uid d"
| "exec_write (InsertProfile p) d = insert_into_profiles p d"
| "exec_write (UpdateProfile pid p) d = update_profiles pid p d"
| "exec_write (DeleteProfile pid) d = delete_from_profiles pid d"
| "exec_write (InsertVehicle v) d = insert_into_vehicles v d"
| "exec_write (UpdateVehicle vid v) d = update_vehicles vid v d"
| "exec_write (DeleteVehicle vid) d = delete_from_vehicles vid d"
| "exec_write (InsertBooking b) d = insert_into_bookings b d"
| "exec_write (UpdateBooking bid b) d = update_bookings bid b d"
| "exec_write (DeleteBooking bid) d = delete_from_bookings bid d"
| "exec_write (InsertFavorite f) d = insert_into_favorites f d"
| "exec_write (UpdateFavorite fid f) d = update_favorites fid f d"
| "exec_write (DeleteFavorite fid) d = delete_from_favorites fid d"
| "exec_write (InsertReview r) d = insert_into_reviews r d"
| "exec_write (UpdateReview rid r) d = update_reviews rid r d"
| "exec_write (DeleteReview rid) d = delete_from_reviews rid d"

text \<open>A sequence of writes, stopping at the first that fails.\<close>

fun exec_writes :: "db_write list \<Rightarrow> db \<Rightarrow> pg_error + db" where
  "exec_writes [] d = Inr d"
| "exec_writes (w # ws) d =
     (case exec_write w d of Inl e \<Rightarrow> Inl e | Inr d' \<Rightarrow> exec_writes ws d')"

inductive reachable :: "db \<Rightarrow> bool" where
  initial: "reachable (initial_db us gen)"
| step: "reachable d \<Longrightarrow> exec_write w d = Inr d' \<Longrightarrow> reachable d'"

subsection \<open>Row-level security: what an authenticated session may do\<close>

text \<open>
  \<open>uid\<close> is \<^verbatim>\<open>auth.uid()\<close>, the id of the session's user. The permissive policies of one
  table and command are alternatives. A policy with only \<^verbatim>\<open>USING\<close> applies it to the new
  row of an \<^verbatim>\<open>UPDATE\<close> as well. A row that \<^verbatim>\<open>USING\<close> hides is skipped silently; a new row
  that fails \<^verbatim>\<open>WITH CHECK\<close> aborts the statement, before any constraint is looked at.

  Before a statement runs, the database adds to each table it names the conditions of
  the table's policies for the command (for \<^verbatim>\<open>UPDATE\<close> and \<^verbatim>\<open>DELETE\<close> also those for
  \<^verbatim>\<open>SELECT\<close>, since the statement reads the rows it is to change). A table that a
  condition sub-selects is read under its own \<^verbatim>\<open>SELECT\<close> policies, which are added in
  the same way. When the conditions of a table that is already being expanded have
  sub-selects again, the statement is aborted with "infinite recursion detected in policy
  for relation ...". This depends on the text of the policies only, not on any row.
\<close>

datatype relation = Profiles | Vehicles | Bookings | Favorites | Reviews

datatype command = SELECT | INSERT | UPDATE | DELETE

definition relation_name :: "relation \<Rightarrow> string" where
  "relation_name t =
     (case t of Profiles \<Rightarrow> ''profiles'' | Vehicles \<Rightarrow> ''vehicles'' | Bookings \<Rightarrow> ''bookings''
      | Favorites \<Rightarrow> ''favorites'' | Reviews \<Rightarrow> ''reviews'')"

text \<open>
  The tables sub-selected by the policies that are declared for a command on a table
  (\<^verbatim>\<open>FOR ALL\<close> policies are declared for every command):
  \<^item> \<^verbatim>\<open>profiles\<close>: "Admins can read all profiles" (\<^verbatim>\<open>SELECT\<close>) sub-selects \<^verbatim>\<open>profiles\<close>;
  \<^item> \<^verbatim>\<open>vehicles\<close>: "Admins can read all vehicles" (\<^verbatim>\<open>SELECT\<close>) and "Admins can manage
    vehicles" (\<^verbatim>\<open>ALL\<close>) sub-select \<^verbatim>\<open>profiles\<close>;
  \<^item> \<^verbatim>\<open>bookings\<close>: "Admins can read all bookings" (\<^verbatim>\<open>SELECT\<close>) and "Admins can update all
    bookings" (\<^verbatim>\<open>UPDATE\<close>) sub-select \<^verbatim>\<open>profiles\<close>;
  \<^item> \<^verbatim>\<open>reviews\<close>: "Users can create reviews for their bookings" (\<^verbatim>\<open>INSERT\<close>) sub-selects
    \<^verbatim>\<open>bookings\<close>;
  \<^item> the policies of \<^verbatim>\<open>favorites\<close> and all other policies have no sub-select.
\<close>

definition policy_subselects :: "relation \<Rightarrow> command \<Rightarrow> relation list" where
  "policy_subselects t c =
     (case t of
        Profiles \<Rightarrow> (if c = SELECT then [Profiles] else [])
      | Vehicles \<Rightarrow> (if c = SELECT then [Profiles, Profiles] else [Profiles])
      | Bookings \<Rightarrow> (if c = SELECT \<or> c = UPDATE then [Profiles] else [])
      | Favorites \<Rightarrow> []
      | Reviews \<Rightarrow> (if c = INSERT then [Bookings] else []))"

definition applied_commands :: "command \<Rightarrow> command list" where
  "applied_commands c = (if c = UPDATE \<or> c = DELETE then [c, SELECT] else [c])"

fun first_error :: "pg_error option list \<Rightarrow> pg_error option" where
  "first_error [] = None"
| "first_error (Some e # es) = Some e"
| "first_error (None # es) = first_error es"

text \<open>
  Adding the policies of table \<open>t\<close> for command \<open>c\<close>, the tables in \<open>active\<close> being
  expanded already: the error, if the expansion aborts.
\<close>

function rls_expand :: "relation list \<Rightarrow> relation \<Rightarrow> command \<Rightarrow> pg_error option" where
  "rls_expand active t c =
     (let subs = concat (map (policy_subselects t) (applied_commands c))
      in if subs = [] then None
         else if t \<in> set active then Some (InfiniteRecursion (relation_name t))
         else first_error (map (\<lambda>s. rls_expand (t # active) s SELECT) subs))"
  by pat_completeness auto
termination
proof (relation "measure (\<lambda>(active, t, c). card (UNIV - set active))")
  show "wf (measure (\<lambda>(active, t, c). card (UNIV - set active)))" by simp
next
  fix active :: "relation list" and t :: relation and c :: command and subs s
  assume "t \<notin> set active"
  have "(UNIV :: relation set) = {Profiles, Vehicles, Bookings, Favorites, Reviews}"
    using relation.exhaust by auto
  then have fin: "finite (UNIV :: relation set)"
    by (metis finite.emptyI finite.insertI)
  have "UNIV - set (t # active) \<subset> UNIV - set active"
    using \<open>t \<notin> set active\<close> by auto
  with fin have "card (UNIV - set (t # active)) < card (UNIV - set active)"
    by (intro psubset_card_mono) auto
  then show "((t # active, s, SELECT), active, t, c) \<in> measure (\<lambda>(active, t, c). card (UNIV - set active))"
    by simp
qed

declare rls_expand.simps [simp del]

text \<open>
  The rows of a table a session's \<^verbatim>\<open>SELECT\<close> is given, or the error that aborts it. The
  condition is the disjunction of the table's \<^verbatim>\<open>SELECT\<close> policies.
\<close>

definition select_profiles :: "db \<Rightarrow> uuid \<Rightarrow> pg_error + profile list" where
  \<comment> \<open>"Users can read own profile", "Admins can read all profiles"\<close>
  "select_profiles d uid =
     (case rls_expand [] Profiles SELECT of
        Some e \<Rightarrow> Inl e
      | None \<Rightarrow> Inr (filter (\<lambda>p. uid = p_id p \<or> is_admin_profile d uid) (profiles d)))"

definition select_vehicles :: "db \<Rightarrow> uuid \<Rightarrow> pg_error + vehicle list" where
  \<comment> \<open>"Anyone can read available vehicles", "Admins can read all vehicles", "Admins can manage vehicles"\<close>
  "select_vehicles d uid =
     (case rls_expand [] Vehicles SELECT of
        Some e \<Rightarrow> Inl e
      | None \<Rightarrow> Inr (filter (\<lambda>v. v_available v = Some True \<or> is_admin_profile d uid) (vehicles d)))"

definition select_bookings :: "db \<Rightarrow> uuid \<Rightarrow> pg_error + booking list" where
  \<comment> \<open>"Users can read own bookings", "Admins can read all bookings"\<close>
  "select_bookings d uid =
     (case rls_expand [] Bookings SELECT of
        Some e \<Rightarrow> Inl e
      | None \<Rightarrow> Inr (filter (\<lambda>b. uid = b_user_id b \<or> is_admin_profile d uid) (bookings d)))"

definition bookings_insert_policy :: "uuid \<Rightarrow> booking \<Rightarrow> bool" where
  \<comment> \<open>"Users can create bookings"\<close>
  "bookings_insert_policy uid b = (uid = b_user_id b)"

definition favorites_policy :: "uuid \<Rightarrow> favorite \<Rightarrow> bool" where
  \<comment> \<open>"Users can manage own favorites"\<close>
  "favorites_policy uid f = (uid = f_user_id f)"

definition reviews_update_policy :: "uuid \<Rightarrow> review \<Rightarrow> bool" where
  \<comment> \<open>"Users can update own reviews"\<close>
  "reviews_update_policy uid r = (uid = r_user_id r)"

text \<open>
  The values of an \<^verbatim>\<open>INSERT INTO bookings\<close>. A column with a \<^verbatim>\<open>DEFAULT\<close> may be left out
  (\<open>None\<close>) and then takes it; \<open>gen\<close> and \<open>now\<close> are what \<^verbatim>\<open>gen_random_uuid()\<close> and
  \<^verbatim>\<open>now()\<close> return to the statement. The fuel levels have no default but \<^verbatim>\<open>NULL\<close>.
\<close>

record booking_values =
  bv_id :: "uuid option"
  bv_user_id :: uuid
  bv_vehicle_id :: uuid
  bv_start_date :: timestamptz
  bv_end_date :: timestamptz
  bv_pickup_location :: string
  bv_total_price :: numeric
  bv_status :: "string option"
  bv_payment_status :: "string option"
  bv_fuel_level_pickup :: "int option"
  bv_fuel_level_dropoff :: "int option"
  bv_created_at :: "timestamptz option"

definition bookings_defaults :: "uuid \<Rightarrow> timestamptz \<Rightarrow> booking_values \<Rightarrow> booking" where
  "bookings_defaults gen now v =
     \<lparr>b_id = coalesce (bv_id v) gen,
      b_user_id = bv_user_id v,
      b_vehicle_id = bv_vehicle_id v,
      b_start_date = bv_start_date v,
      b_end_date = bv_end_date v,
      b_pickup_location = bv_pickup_location v,
      b_total_price = bv_total_price v,
      b_status = coalesce (bv_status v) ''pending'',
      b_payment_status = coalesce (bv_payment_status v) ''pending'',
      b_fuel_level_pickup = bv_fuel_level_pickup v,
      b_fuel_level_dropoff = bv_fuel_level_dropoff v,
      b_created_at = Some (coalesce (bv_created_at v) now)\<rparr>"

text \<open>Creating a booking: the session's \<^verbatim>\<open>INSERT INTO bookings\<close>.\<close>

definition insert_booking :: "uuid \<Rightarrow> uuid \<Rightarrow> timestamptz \<Rightarrow> booking_values \<Rightarrow> db \<Rightarrow> pg_error + db" where
  "insert_booking uid gen now v d =
     (let b = bookings_defaults gen now v
      in if bookings_insert_policy uid b then insert_into_bookings b d
         else Inl (RlsViolation ''bookings''))"

text \<open>
  The session's \<^verbatim>\<open>UPDATE bookings SET ... WHERE id = bid\<close>, under "Users can update own
  bookings" and "Admins can update all bookings".
\<close>

definition update_booking :: "uuid \<Rightarrow> uuid \<Rightarrow> booking \<Rightarrow> db \<Rightarrow> pg_error + db" where
  "update_booking uid bid new d =
     (case rls_expand [] Bookings UPDATE of
        Some e \<Rightarrow> Inl e
      | None \<Rightarrow>
          (case find (\<lambda>x. b_id x = bid) (bookings d) of
             None \<Rightarrow> Inr d
           | Some old \<Rightarrow>
               if \<not> (uid = b_user_id old \<or> is_admin_profile d uid) then Inr d
               else if \<not> (uid = b_user_id new \<or> is_admin_profile d uid)
                 then Inl (RlsViolation ''bookings'')
               else update_bookings bid new d))"

text \<open>
  Submitting a review: the session's \<^verbatim>\<open>INSERT INTO reviews\<close>, under "Users can create
  reviews for their bookings"; the policy's sub-select reads \<^verbatim>\<open>bookings\<close> as the session
  may.
\<close>

definition insert_review :: "uuid \<Rightarrow> review \<Rightarrow> db \<Rightarrow> pg_error + db" where
  "insert_review uid r d =
     (case rls_expand [] Reviews INSERT of
        Some e \<Rightarrow> Inl e
      | None \<Rightarrow>
          if uid = r_user_id r \<and>
             list_ex (\<lambda>b. b_id b = r_booking_id r \<and> b_user_id b = uid \<and> b_status b = ''completed'')
               (filter (\<lambda>b. uid = b_user_id b \<or> is_admin_profile d uid) (bookings d))
            then insert_into_reviews r d
          else Inl (RlsViolation ''reviews''))"

definition update_review :: "uuid \<Rightarrow> uuid \<Rightarrow> review \<Rightarrow> db \<Rightarrow> pg_error + db" where
  "update_review uid rid new d =
     (case find (\<lambda>x. r_id x = rid) (reviews d) of
        None \<Rightarrow> Inr d
      | Some old \<Rightarrow>
          if \<not> reviews_update_policy uid old then Inr d
          else if \<not> reviews_update_policy uid new then Inl (RlsViolation ''reviews'')
          else update_reviews rid new d)"

text \<open>Adding a favorite: the session's \<^verbatim>\<open>INSERT INTO favorites\<close>.\<close>

definition insert_favorite :: "uuid \<Rightarrow> favorite \<Rightarrow> db \<Rightarrow> pg_error + db" where
  "insert_favorite uid f d =
     (if favorites_policy uid f then insert_into_favorites f d
      else Inl (RlsViolation ''favorites''))"

text \<open>\<^verbatim>\<open>removeFavorite\<close> of the favorites screen: \<^verbatim>\<open>delete().eq('id', favoriteId)\<close>.\<close>

definition removeFavorite :: "uuid \<Rightarrow> uuid \<Rightarrow> db \<Rightarrow> pg_error + db" where
  "removeFavorite uid favoriteId d =
     (case find (\<lambda>x. f_id x = favoriteId) (favorites d) of
        None \<Rightarrow> Inr d
      | Some old \<Rightarrow>
          if favorites_policy uid old then delete_from_favorites favoriteId d else Inr d)"

subsection \<open>\<^verbatim>\<open>lib/auth.ts\<close>\<close>

text \<open>The interface \<^verbatim>\<open>User\<close>.\<close>

record app_user =
  usr_id :: uuid
  usr_email :: string
  usr_full_name :: "string option"
  usr_avatar_url :: "string option"
  usr_is_admin :: bool

text \<open>\<^verbatim>\<open>.single()\<close>: the row when the query yields exactly one, otherwise no data.\<close>

definition single :: "'a list \<Rightarrow> 'a option" where
  "single xs = (case xs of [x] \<Rightarrow> Some x | _ \<Rightarrow> None)"

text \<open>
  The \<^verbatim>\<open>data\<close> of \<^verbatim>\<open>from('profiles').select(...).eq('id', uid).single()\<close>, asked by the
  session of \<open>uid\<close>: the row, or nothing when the statement fails or does not yield
  exactly one row. Both callers take \<^verbatim>\<open>data\<close> and do not look at the error.
\<close>

definition select_profile :: "db \<Rightarrow> uuid \<Rightarrow> profile option" where
  "select_profile d uid =
     (case select_profiles d uid of
        Inl error \<Rightarrow> None
      | Inr rows \<Rightarrow> single (filter (\<lambda>p. p_id p = uid) rows))"

text \<open>\<^verbatim>\<open>a || b\<close> on optional strings: the empty string is falsy, like a missing one.\<close>

definition js_or :: "string option \<Rightarrow> string option \<Rightarrow> string option" where
  "js_or a b = (case a of None \<Rightarrow> b | Some s \<Rightarrow> if s = [] then b else Some s)"

text \<open>
  \<^verbatim>\<open>getCurrentUser\<close>; \<open>session\<close> is the user \<^verbatim>\<open>supabase.auth.getUser()\<close> returns, if any.
\<close>

definition getCurrentUser :: "auth_user option \<Rightarrow> db \<Rightarrow> app_user option" where
  "getCurrentUser session d =
     (case session of
        None \<Rightarrow> None
      | Some user \<Rightarrow>
          if u_email user = admin_email
            then Some \<lparr>usr_id = u_id user, usr_email = u_email user,
                       usr_full_name = u_full_name user, usr_avatar_url = u_avatar_url user,
                       usr_is_admin = True\<rparr>
          else
            let profile = select_profile d (u_id user)
            in Some \<lparr>usr_id = u_id user, usr_email = u_email user,
                     usr_full_name = js_or (Option.bind profile p_full_name) (u_full_name user),
                     usr_avatar_url = js_or (Option.bind profile p_avatar_url) (u_avatar_url user),
                     usr_is_admin = (Option.bind profile p_is_admin = Some True)\<rparr>)"

text \<open>
  \<^verbatim>\<open>signIn\<close>; \<open>signInWithPassword\<close> is the authentication provider's answer to an address
  and a password: an error, which \<^verbatim>\<open>signIn\<close> throws on, or the user.
\<close>

definition signIn ::
  "(string \<Rightarrow> string \<Rightarrow> string + auth_user) \<Rightarrow> string \<Rightarrow> string \<Rightarrow> db \<Rightarrow> string + auth_user \<times> bool" where
  "signIn signInWithPassword email password d =
     (case signInWithPassword email password of
        Inl error \<Rightarrow> Inl error
      | Inr user \<Rightarrow>
          if email = admin_email then Inr (user, True)
          else Inr (user, Option.bind (select_profile d (u_id user)) p_is_admin = Some True))"

subsection \<open>The admin dashboard\<close>

text \<open>
  The numbers of the client are JavaScript's; what the code uses of them is taken as given:
  their addition, their zero, which of them are falsy, and the number a \<^verbatim>\<open>numeric\<close> of
  a response is read as.
\<close>

record 'n js_numbers =
  js_add :: "'n \<Rightarrow> 'n \<Rightarrow> 'n"
  js_zero :: 'n
  js_falsy :: "'n \<Rightarrow> bool"
  js_of_numeric :: "numeric \<Rightarrow> 'n"

text \<open>\<^verbatim>\<open>x || y\<close> on an optional number: a missing number is falsy.\<close>

definition num_or :: "'n js_numbers \<Rightarrow> 'n option \<Rightarrow> 'n \<Rightarrow> 'n" where
  "num_or J a b = (case a of None \<Rightarrow> b | Some x \<Rightarrow> if js_falsy J x then b else x)"

text \<open>
  \<^verbatim>\<open>from('bookings').select('total_price').eq('payment_status', 'completed')\<close>, asked by
  the session of \<open>uid\<close>: the \<^verbatim>\<open>total_price\<close> of each row the policies show, or the error.
\<close>

definition revenueData :: "'n js_numbers \<Rightarrow> uuid \<Rightarrow> db \<Rightarrow> pg_error + 'n option list" where
  "revenueData J uid d =
     (case select_bookings d uid of
        Inl error \<Rightarrow> Inl error
      | Inr rows \<Rightarrow>
          Inr (map (\<lambda>b. Some (js_of_numeric J (b_total_price b)))
                 (filter (\<lambda>b. b_payment_status b = ''completed'') rows)))"

text \<open>
  \<^verbatim>\<open>revenueData?.reduce((sum, booking) => sum + (booking.total_price || 0), 0) || 0\<close>;
  \<open>None\<close> is the \<^verbatim>\<open>data\<close> of a query that failed.
\<close>

definition totalRevenue :: "'n js_numbers \<Rightarrow> 'n option list option \<Rightarrow> 'n" where
  "totalRevenue J data =
     (case data of
        None \<Rightarrow> js_zero J
      | Some rows \<Rightarrow>
          num_or J
            (Some (foldl (\<lambda>sum booking. js_add J sum (num_or J booking (js_zero J))) (js_zero J) rows))
            (js_zero J))"

text \<open>
  The \<^verbatim>\<open>totalRevenue\<close> that \<^verbatim>\<open>fetchDashboardStats\<close> puts into the statistics. It takes the
  \<^verbatim>\<open>data\<close> of the query and does not look at the error.
\<close>

definition fetchDashboardStats :: "'n js_numbers \<Rightarrow> uuid \<Rightarrow> db \<Rightarrow> 'n" where
  "fetchDashboardStats J uid d =
     totalRevenue J (case revenueData J uid d of Inl error \<Rightarrow> None | Inr rows \<Rightarrow> Some rows)"

subsection \<open>The bookings screen\<close>

text \<open>\<^verbatim>\<open>.order('created_at', { ascending: false })\<close>; descending order puts \<^verbatim>\<open>NULL\<close> first.\<close>

definition order_by_created_at_desc :: "booking list \<Rightarrow> booking list" where
  "order_by_created_at_desc bs =
     filter (\<lambda>b. b_created_at b = None) bs
     @ rev (sort_key (\<lambda>b. coalesce (b_created_at b) 0) (filter (\<lambda>b. b_created_at b \<noteq> None) bs))"

text \<open>
  The query of \<^verbatim>\<open>fetchBookings\<close>, one statement over \<^verbatim>\<open>bookings\<close> and the embedded
  \<^verbatim>\<open>vehicles (...)\<close>: the bookings of \<open>owner\<close> that the session of \<open>uid\<close> may read, newest
  first, each with its vehicle if the session may read that; or the error.
\<close>

definition bookings_with_vehicles ::
  "db \<Rightarrow> uuid \<Rightarrow> uuid \<Rightarrow> pg_error + (booking \<times> vehicle option) list" where
  "bookings_with_vehicles d uid owner =
     (case select_bookings d uid of
        Inl error \<Rightarrow> Inl error
      | Inr bs \<Rightarrow>
          (case select_vehicles d uid of
             Inl error \<Rightarrow> Inl error
           | Inr vs \<Rightarrow>
               Inr (map (\<lambda>b. (b, find (\<lambda>v. v_id v = b_vehicle_id b) vs))
                      (order_by_created_at_desc (filter (\<lambda>b. b_user_id b = owner) bs)))))"

text \<open>
  What \<^verbatim>\<open>fetchBookings\<close> comes to: with nobody signed in it redirects to the login screen;
  when the query fails it throws the error, which it catches to alert "Failed to load
  bookings"; otherwise it hands the rows to \<^verbatim>\<open>setBookings\<close>.
\<close>

datatype 'a fetched = Redirected | Failed pg_error | Loaded 'a

definition fetchBookings :: "auth_user option \<Rightarrow> db \<Rightarrow> (booking \<times> vehicle option) list fetched" where
  "fetchBookings session d =
     (case getCurrentUser session d of
        None \<Rightarrow> Redirected
      | Some user \<Rightarrow>
          (case bookings_with_vehicles d (usr_id user) (usr_id user) of
             Inl error \<Rightarrow> Failed error
           | Inr data \<Rightarrow> Loaded data))"

text \<open>
  \<^verbatim>\<open>isUpcoming\<close> of the bookings screen. \<open>now\<close> is the value of \<^verbatim>\<open>new Date()\<close>; the
  \<^verbatim>\<open>start_date\<close> of a fetched row is the text of a non-null \<^verbatim>\<open>timestamptz\<close>, which
  \<^verbatim>\<open>new Date\<close> parses to that instant.
\<close>

definition isUpcoming :: "timestamptz \<Rightarrow> booking \<Rightarrow> bool" where
  "isUpcoming now b = (b_start_date b > now \<or> b_status b = ''active'')"

datatype tab = Upcoming | Past

text \<open>\<^verbatim>\<open>filteredBookings\<close>: the rows shown under the active tab.\<close>

definition filteredBookings :: "tab \<Rightarrow> timestamptz \<Rightarrow> booking list \<Rightarrow> booking list" where
  "filteredBookings activeTab now bs =
     filter (\<lambda>b. if activeTab = Upcoming then isUpcoming now b else \<not> isUpcoming now b) bs"

subsection \<open>Stored aggregates against the reviews\<close>

text \<open>A number rounded to \<open>s\<close> decimal places, halves up.\<close>

definition round_half_up :: "rat \<Rightarrow> nat \<Rightarrow> rat" where
  "round_half_up x s = of_int \<lfloor>x * 10 ^ s + 1 / 2\<rfloor> / 10 ^ s"

text \<open>
  What is required of the aggregates of one vehicle row \<open>v\<close> in a state \<open>d\<close>, up to the
  rounding of \<^verbatim>\<open>numeric\<close> division: its review count is the number of the reviews that
  carry its id, and its rating is 0 when there are none and otherwise the arithmetic mean
  of their ratings rounded to 16 decimal places, or to 20.
\<close>

definition aggregates_match :: "db \<Rightarrow> vehicle \<Rightarrow> bool" where
  "aggregates_match d v =
     (let rs = map r_rating (filter (\<lambda>r. r_vehicle_id r = v_id v) (reviews d));
          mean = of_int (sum_list rs) / of_nat (length rs)
      in v_total_reviews v = Some (int (length rs))
         \<and> (if rs = [] then v_rating v = Some 0
            else v_rating v = Some (round_half_up mean 16)
               \<or> v_rating v = Some (round_half_up mean 20)))"

text \<open>The row holds what the trigger computes from the reviews as they are.\<close>

definition aggregates_current :: "db \<Rightarrow> vehicle \<Rightarrow> bool" where
  "aggregates_current d v =
     (let rs = map r_rating (filter (\<lambda>r. r_vehicle_id r = v_id v) (reviews d))
      in v_rating v = Some (coalesce (sql_avg rs) 0) \<and> v_total_reviews v = Some (int (length rs)))"

text \<open>The two uniqueness constraints of \<^verbatim>\<open>favorites\<close>, as a property of a state.\<close>

definition favorites_unique :: "db \<Rightarrow> bool" where
  "favorites_unique d =
     (distinct (map f_id (favorites d))
      \<and> distinct (map (\<lambda>f. (f_user_id f, f_vehicle_id f)) (favorites d)))"

subsection \<open>Sample sessions and states\<close>

text \<open>
  Three users, a few rows and the states they lead to from the migrated database (with
  \<^verbatim>\<open>gen_random_uuid()\<close> giving the sample vehicles the ids 0 to 5).
\<close>

definition alice :: auth_user where
  "alice = \<lparr>u_id = 7, u_email = ''alice@example.com'', u_full_name = Some ''Alice'', u_avatar_url = None\<rparr>"

definition bob :: auth_user where
  "bob = \<lparr>u_id = 8, u_email = ''bob@example.com'', u_full_name = None, u_avatar_url = None\<rparr>"

definition carol :: auth_user where
  "carol = \<lparr>u_id = 9, u_email = ''carol@example.com'', u_full_name = Some ''Carol'', u_avatar_url = None\<rparr>"

definition db_start :: db where
  "db_start = initial_db [alice, bob] id"

text \<open>Alice books the Camry; the six values a client supplies, the rest defaulted.\<close>

definition trip :: booking_values where
  "trip = \<lparr>bv_id = None, bv_user_id = 7, bv_vehicle_id = 0, bv_start_date = 100, bv_end_date = 500,
     bv_pickup_location = ''Downtown'', bv_total_price = 180, bv_status = None,
     bv_payment_status = None, bv_fuel_level_pickup = None, bv_fuel_level_dropoff = None,
     bv_created_at = None\<rparr>"

definition pending_trip :: booking where
  "pending_trip = bookings_defaults 40 90 trip"

definition completed_trip :: booking where
  "completed_trip = pending_trip\<lparr>b_status := ''completed'', b_payment_status := ''completed''\<rparr>"

definition bob_trip :: booking where
  "bob_trip = \<lparr>b_id = 41, b_user_id = 8, b_vehicle_id = 1, b_start_date = 300, b_end_date = 400,
     b_pickup_location = ''Airport'', b_total_price = 65, b_status = ''active'',
     b_payment_status = ''pending'', b_fuel_level_pickup = Some 80, b_fuel_level_dropoff = None,
     b_created_at = Some 95\<rparr>"

definition db_booked :: db where
  "db_booked = db_start\<lparr>bookings := [pending_trip]\<rparr>"

definition db_completed :: db where
  "db_completed = db_start\<lparr>bookings := [completed_trip]\<rparr>"

definition review0 :: review where
  "review0 = \<lparr>r_id = 60, r_user_id = 7, r_vehicle_id = 0, r_booking_id = 40, r_rating = 4,
     r_comment = Some ''Smooth ride''\<rparr>"

text \<open>
  Two more completed bookings of the Camry, by Bob and by Alice, and their reviews, both
  rated 5.
\<close>

definition trip43 :: booking where
  "trip43 = completed_trip\<lparr>b_id := 43, b_user_id := 8, b_start_date := 600, b_end_date := 700\<rparr>"

definition trip44 :: booking where
  "trip44 = completed_trip\<lparr>b_id := 44, b_start_date := 800, b_end_date := 900\<rparr>"

definition review1 :: review where
  "review1 = \<lparr>r_id = 61, r_user_id = 8, r_vehicle_id = 0, r_booking_id = 43, r_rating = 5,
     r_comment = None\<rparr>"

definition review2 :: review where
  "review2 = \<lparr>r_id = 62, r_user_id = 7, r_vehicle_id = 0, r_booking_id = 44, r_rating = 5,
     r_comment = None\<rparr>"

text \<open>The sample vehicles with the Camry's aggregates replaced.\<close>

definition camry_rated :: "numeric \<Rightarrow> int \<Rightarrow> vehicle list" where
  "camry_rated x n =
     (hd (sample_vehicles id))\<lparr>v_rating := Some x, v_total_reviews := Some n\<rparr> # tl (sample_vehicles id)"

definition db_reviewed :: db where
  "db_reviewed = db_completed\<lparr>vehicles := camry_rated 4 1, reviews := [review0]\<rparr>"

text \<open>The three bookings; then two, three, and again two reviews of the Camry.\<close>

definition db_trips :: db where
  "db_trips = db_start\<lparr>bookings := [completed_trip, trip43, trip44]\<rparr>"

definition db_two_reviews :: db where
  "db_two_reviews = db_trips\<lparr>vehicles := camry_rated (9 / 2) 2, reviews := [review0, review1]\<rparr>"

definition db_three_reviews :: db where
  "db_three_reviews =
     db_trips\<lparr>vehicles := camry_rated (46666666666666667 / 10 ^ 16) 3,
              reviews := [review0, review1, review2]\<rparr>"

definition db_rerated :: db where
  "db_rerated =
     db_trips\<lparr>vehicles := camry_rated (43333333333333333 / 10 ^ 16) 3,
              reviews := [review0, review1, review2\<lparr>r_rating := 4\<rparr>]\<rparr>"

definition db_fives :: db where
  "db_fives = db_trips\<lparr>vehicles := camry_rated 5 2, reviews := [review1, review2]\<rparr>"

text \<open>Alice's review moved from the Camry to the Honda.\<close>

definition db_moved :: db where
  "db_moved =
     db_reviewed\<lparr>vehicles := map (\<lambda>v. if v_id v = 1 then v\<lparr>v_rating := Some 4, v_total_reviews := Some 1\<rparr> else v)
                                (vehicles db_reviewed),
                 reviews := [review0\<lparr>r_vehicle_id := 1\<rparr>]\<rparr>"

definition db_unavailable :: db where
  "db_unavailable =
     db_start\<lparr>vehicles := (hd (sample_vehicles id))\<lparr>v_available := Some False\<rparr> # tl (sample_vehicles id)\<rparr>"

definition fav0 :: favorite where
  "fav0 = \<lparr>f_id = 70, f_user_id = 7, f_vehicle_id = 2, f_created_at = Some 91\<rparr>"

definition db_fav :: db where
  "db_fav = db_start\<lparr>favorites := [fav0]\<rparr>"

definition carol_profile :: profile where
  "carol_profile = \<lparr>p_id = 9, p_email = ''carol@example.com'', p_full_name = Some ''Carol'',
     p_avatar_url = None, p_is_admin = Some True\<rparr>"

definition db_office :: db where
  "db_office = db_start\<lparr>auth_users := [alice, bob, carol], profiles := [carol_profile],
     bookings := [completed_trip, bob_trip]\<rparr>"

section \<open>Properties\<close>

subsection \<open>What a write leaves alone\<close>

text \<open>The rating trigger writes \<^verbatim>\<open>vehicles\<close> and nothing else.\<close>

lemma update_vehicle_rating_frame:
  "update_vehicle_rating n o' d = Inr d' \<Longrightarrow>
     auth_users d' = auth_users d \<and> profiles d' = profiles d \<and> bookings d' = bookings d
     \<and> favorites d' = favorites d \<and> reviews d' = reviews d"
  by (auto simp: update_vehicle_rating_def Let_def split: option.splits if_splits)

lemma deleted_review_triggers_frame:
  "deleted_review_triggers rs d = Inr d' \<Longrightarrow>
     auth_users d' = auth_users d \<and> profiles d' = profiles d \<and> bookings d' = bookings d
     \<and> favorites d' = favorites d \<and> reviews d' = reviews d"
proof (induction rs arbitrary: d)
  case Nil
  then show ?case by simp
next
  case (Cons r rs)
  then obtain d1 where 1: "update_vehicle_rating None (Some r) d = Inr d1"
    and 2: "deleted_review_triggers rs d1 = Inr d'"
    by (auto split: sum.splits)
  from Cons.IH[OF 2] update_vehicle_rating_frame[OF 1] show ?case by simp
qed

lemma insert_review_effect:
  "insert_into_reviews r d = Inr d' \<Longrightarrow>
     update_vehicle_rating (Some r) None (d\<lparr>reviews := reviews d @ [r]\<rparr>) = Inr d'"
  by (auto simp: insert_into_reviews_def split: option.splits if_splits)

lemma update_review_effect:
  "update_reviews rid r d = Inr d' \<Longrightarrow> find (\<lambda>x. r_id x = rid) (reviews d) = Some old \<Longrightarrow>
     update_vehicle_rating (Some r) (Some old)
       (d\<lparr>reviews := map (\<lambda>x. if r_id x = rid then r else x) (reviews d)\<rparr>) = Inr d'"
  by (auto simp: update_reviews_def split: option.splits if_splits)

lemma delete_review_effect:
  "delete_from_reviews rid d = Inr d' \<Longrightarrow> find (\<lambda>x. r_id x = rid) (reviews d) = Some old \<Longrightarrow>
     update_vehicle_rating None (Some old)
       (d\<lparr>reviews := filter (\<lambda>x. r_id x \<noteq> rid) (reviews d)\<rparr>) = Inr d'"
  by (auto simp: delete_from_reviews_def split: option.splits if_splits)

lemma find_Some_ex: "(\<exists>x\<in>set xs. P x) \<Longrightarrow> \<exists>y. find P xs = Some y \<and> P y \<and> y \<in> set xs"
  by (induction xs) auto

lemma find_SomeD: "find P xs = Some y \<Longrightarrow> P y \<and> y \<in> set xs"
  by (induction xs) (auto split: if_splits)

lemma filter_map_replace_other:
  "\<forall>x\<in>set xs. ident x = i \<longrightarrow> k x \<noteq> w \<Longrightarrow> k new \<noteq> w \<Longrightarrow>
     filter (\<lambda>r. k r = w) (map (\<lambda>x. if ident x = i then new else x) xs) = filter (\<lambda>r. k r = w) xs"
  by (induction xs) auto

lemma distinct_map_replace:
  assumes "distinct (map key xs)" "distinct (map ident xs)"
    and "\<forall>x\<in>set xs. ident x \<noteq> i \<longrightarrow> key x \<noteq> key new"
  shows "distinct (map key (map (\<lambda>x. if ident x = i then new else x) xs))"
  using assms
proof (induction xs)
  case Nil
  then show ?case by simp
next
  case (Cons a xs)
  show ?case
  proof (cases "ident a = i")
    case True
    from Cons.prems(2) True have "\<forall>x\<in>set xs. ident x \<noteq> i" by (auto simp: image_iff)
    then have same: "map (\<lambda>x. if ident x = i then new else x) xs = xs"
      by (induction xs) auto
    from Cons.prems(3) \<open>\<forall>x\<in>set xs. ident x \<noteq> i\<close> have "key new \<notin> key ` set xs" by auto
    with True same Cons.prems(1) show ?thesis by simp
  next
    case False
    from Cons have IH: "distinct (map key (map (\<lambda>x. if ident x = i then new else x) xs))" by simp
    from False Cons.prems(3) have n: "key a \<noteq> key new" by simp
    from Cons.prems(1) have m: "\<forall>x\<in>set xs. key x \<noteq> key a" by (auto simp: image_iff)
    have "\<forall>x\<in>set xs. key (if ident x = i then new else x) \<noteq> key a"
      using n m by simp
    with False IH show ?thesis by (auto simp: comp_def)
  qed
qed

lemma reachable_exec_writes: "reachable d \<Longrightarrow> exec_writes ws d = Inr d' \<Longrightarrow> reachable d'"
proof (induction ws arbitrary: d)
  case Nil
  then show ?case by simp
next
  case (Cons w ws)
  then obtain d1 where "exec_write w d = Inr d1" "exec_writes ws d1 = Inr d'"
    by (auto split: sum.splits)
  with Cons show ?case using reachable.step by blast
qed

subsection \<open>The statements of a session that the policies abort\<close>

text \<open>
  "Admins can read all profiles" sub-selects the table it is a policy of, so expanding
  the \<^verbatim>\<open>SELECT\<close> policies of \<^verbatim>\<open>profiles\<close> aborts, whatever is being expanded already.
\<close>

lemma rls_expand_profiles:
  "rls_expand active Profiles SELECT = Some (InfiniteRecursion ''profiles'')"
  by (simp add: rls_expand.simps[of active] rls_expand.simps[of "Profiles # active"]
      policy_subselects_def applied_commands_def relation_name_def)

text \<open>
  So does every statement that reaches them: reading \<^verbatim>\<open>profiles\<close>, \<^verbatim>\<open>vehicles\<close> or
  \<^verbatim>\<open>bookings\<close>, updating a booking, and inserting a review, whose policy sub-selects
  \<^verbatim>\<open>bookings\<close>.
\<close>

lemma rls_expand_aborts:
  "rls_expand [] Profiles SELECT = Some (InfiniteRecursion ''profiles'')"
  "rls_expand [] Vehicles SELECT = Some (InfiniteRecursion ''profiles'')"
  "rls_expand [] Bookings SELECT = Some (InfiniteRecursion ''profiles'')"
  "rls_expand [] Bookings UPDATE = Some (InfiniteRecursion ''profiles'')"
  "rls_expand [] Reviews INSERT = Some (InfiniteRecursion ''profiles'')"
  by (simp_all add: rls_expand.simps[of "[]"] rls_expand.simps[of "[Reviews]"] rls_expand_profiles
      policy_subselects_def applied_commands_def)

text \<open>
  Inserting a booking, any statement on \<^verbatim>\<open>favorites\<close>, and reading or updating a review
  are under policies without sub-selects.
\<close>

lemma rls_expand_passes:
  "rls_expand [] Bookings INSERT = None"
  "rls_expand [] Favorites c = None"
  "rls_expand [] Reviews UPDATE = None"
  "rls_expand [] Reviews SELECT = None"
  by (simp_all add: rls_expand.simps[of "[]"] policy_subselects_def applied_commands_def)

lemma session_statements_abort:
  "select_profiles d uid = Inl (InfiniteRecursion ''profiles'')"
  "select_vehicles d uid = Inl (InfiniteRecursion ''profiles'')"
  "select_bookings d uid = Inl (InfiniteRecursion ''profiles'')"
  "update_booking uid bid b d = Inl (InfiniteRecursion ''profiles'')"
  "insert_review uid r d = Inl (InfiniteRecursion ''profiles'')"
  by (simp_all add: select_profiles_def select_vehicles_def select_bookings_def update_booking_def
      insert_review_def rls_expand_aborts)

lemma select_profile_no_data: "select_profile d uid = None"
  by (simp add: select_profile_def session_statements_abort)

text \<open>
  What a session obtains under the policies is one of the writes, so the states sessions
  reach are reachable states.
\<close>

lemma requests_are_writes:
  "insert_booking uid gen now v d = Inr d' \<Longrightarrow>
     exec_write (InsertBooking (bookings_defaults gen now v)) d = Inr d'"
  "update_booking uid bid b d = Inr d' \<Longrightarrow> d' = d \<or> exec_write (UpdateBooking bid b) d = Inr d'"
  "insert_review uid r d = Inr d' \<Longrightarrow> exec_write (InsertReview r) d = Inr d'"
  "update_review uid rid r d = Inr d' \<Longrightarrow> d' = d \<or> exec_write (UpdateReview rid r) d = Inr d'"
  "insert_favorite uid f d = Inr d' \<Longrightarrow> exec_write (InsertFavorite f) d = Inr d'"
  "removeFavorite uid fid d = Inr d' \<Longrightarrow> d' = d \<or> exec_write (DeleteFavorite fid) d = Inr d'"
  by (auto simp: insert_booking_def update_booking_def insert_review_def update_review_def
      insert_favorite_def removeFavorite_def Let_def split: if_splits option.splits)

subsection \<open>Evaluating the samples\<close>

lemma sample_averages:
  "sql_avg [] = None"
  "sql_avg [4] = Some 4"
  "sql_avg [5] = Some 5"
  "sql_avg [4, 5] = Some (9 / 2)"
  "sql_avg [5, 5] = Some 5"
  "sql_avg [4, 5, 5] = Some (46666666666666667 / 10 ^ 16)"
  "sql_avg [4, 5, 4] = Some (43333333333333333 / 10 ^ 16)"
  by (simp_all add: sql_avg_def numeric_div_def select_div_scale_def numeric_first_digit_def
      numeric_weight_def compute_floorlog Let_def)

lemmas example_defs = alice_def bob_def carol_def db_start_def pending_trip_def completed_trip_def
  bob_trip_def db_booked_def db_completed_def review0_def camry_rated_def db_reviewed_def
  initial_db_def sample_vehicles_def trip_def
  db_unavailable_def fav0_def db_fav_def carol_profile_def db_office_def
  bookings_defaults_def coalesce_def
  trip43_def trip44_def review1_def review2_def db_trips_def db_two_reviews_def
  db_three_reviews_def db_rerated_def db_fives_def db_moved_def

lemmas write_defs = insert_into_auth_users_def handle_new_user_def insert_into_profiles_def
  update_profiles_def insert_into_bookings_def update_bookings_def bookings_check_def
  fuel_level_ok_def insert_into_favorites_def update_vehicles_def vehicles_check_def
  insert_into_reviews_def reviews_check_def update_vehicle_rating_def coalesce_def sample_averages
  admin_email_def

lemmas request_defs = insert_booking_def bookings_insert_policy_def bookings_defaults_def Let_def

lemma reachable_db_completed: "reachable db_completed"
proof -
  have "exec_writes [InsertBooking pending_trip, UpdateBooking 40 completed_trip] (initial_db [alice, bob] id)
      = Inr db_completed"
    by (simp add: write_defs example_defs)
  with reachable.initial show ?thesis by (rule reachable_exec_writes)
qed

lemma reachable_db_office: "reachable db_office"
proof -
  have "exec_writes [InsertAuthUser carol, UpdateProfile 9 carol_profile,
          InsertBooking completed_trip, InsertBooking bob_trip] (initial_db [alice, bob] id)
      = Inr db_office"
    by (simp add: write_defs example_defs)
  with reachable.initial show ?thesis by (rule reachable_exec_writes)
qed

lemma reachable_db_booked: "reachable db_booked"
proof -
  have "exec_writes [InsertBooking pending_trip] (initial_db [alice, bob] id) = Inr db_booked"
    by (simp add: write_defs example_defs)
  with reachable.initial show ?thesis by (rule reachable_exec_writes)
qed

lemma reachable_db_unavailable: "reachable db_unavailable"
proof -
  have "exec_writes [UpdateVehicle 0 ((hd (sample_vehicles id))\<lparr>v_available := Some False\<rparr>)]
      (initial_db [alice, bob] id) = Inr db_unavailable"
    by (simp add: write_defs example_defs)
  with reachable.initial show ?thesis by (rule reachable_exec_writes)
qed

lemma reachable_db_reviewed: "reachable db_reviewed"
proof -
  have "exec_write (InsertReview review0) db_completed = Inr db_reviewed"
    by (simp add: write_defs Let_def example_defs)
  with reachable_db_completed show ?thesis by (rule reachable.step)
qed

lemma reachable_db_two_reviews: "reachable db_two_reviews"
proof -
  have "exec_writes [InsertBooking trip43, InsertBooking trip44, InsertReview review1] db_reviewed
      = Inr db_two_reviews"
    by (simp add: write_defs Let_def example_defs)
  with reachable_db_reviewed show ?thesis by (rule reachable_exec_writes)
qed

lemma reachable_db_three_reviews: "reachable db_three_reviews"
proof -
  have "exec_write (InsertReview review2) db_two_reviews = Inr db_three_reviews"
    by (simp add: write_defs Let_def example_defs)
  with reachable_db_two_reviews show ?thesis by (rule reachable.step)
qed

lemma reachable_db_rerated: "reachable db_rerated"
proof -
  have "exec_write (UpdateReview 62 (review2\<lparr>r_rating := 4\<rparr>)) db_three_reviews = Inr db_rerated"
    by (simp add: update_reviews_def write_defs Let_def example_defs)
  with reachable_db_three_reviews show ?thesis by (rule reachable.step)
qed

lemma reachable_db_fives: "reachable db_fives"
proof -
  have "exec_write (DeleteReview 60) db_three_reviews = Inr db_fives"
    by (simp add: delete_from_reviews_def write_defs Let_def example_defs)
  with reachable_db_three_reviews show ?thesis by (rule reachable.step)
qed

lemma reachable_db_fav: "reachable db_fav"
proof -
  have "exec_writes [InsertFavorite fav0] (initial_db [alice, bob] id) = Inr db_fav"
    by (simp add: write_defs example_defs)
  with reachable.initial show ?thesis by (rule reachable_exec_writes)
qed

subsection \<open>Ratings and reviews\<close>

text \<open>
  The scale of a quotient of whole numbers: with the dividend between the divisor and
  five times the divisor, as the sum of ratings from 1 to 5 is to their number, it is 16
  or 20.
\<close>

lemma weight_bounds:
  "0 < n \<Longrightarrow> 10000 ^ numeric_weight n \<le> n \<and> n < 10000 * 10000 ^ numeric_weight n"
proof -
  assume n: "0 < n"
  from floorlog_bounds[of n 10000] n
  have b: "10000 ^ (floorlog 10000 n - 1) \<le> n" "n < 10000 ^ floorlog 10000 n" by simp_all
  from n have "floorlog 10000 n > 0" by (subst compute_floorlog) simp
  then have "floorlog 10000 n = Suc (floorlog 10000 n - 1)" by simp
  then have "(10000::nat) ^ floorlog 10000 n = 10000 * 10000 ^ (floorlog 10000 n - 1)"
    by (metis power_Suc)
  with b show ?thesis by (simp add: numeric_weight_def)
qed

lemma scale_for_ratings:
  assumes "0 < b" "b \<le> a" "a \<le> 5 * b"
  shows "select_div_scale a b = 16 \<or> select_div_scale a b = 20"
proof -
  let ?wa = "numeric_weight a" and ?wb = "numeric_weight b"
  from assms have a: "0 < a" by simp
  note A = weight_bounds[OF a] and B = weight_bounds[OF assms(1)]
  have mono: "?wb \<le> ?wa"
    using assms(2) by (simp add: numeric_weight_def floorlog_mono diff_le_mono)
  have up: "?wa \<le> Suc ?wb"
  proof (rule ccontr)
    assume "\<not> ?wa \<le> Suc ?wb"
    then have "Suc (Suc ?wb) \<le> ?wa" by simp
    then have "(10000::nat) ^ Suc (Suc ?wb) \<le> 10000 ^ ?wa"
      by (intro power_increasing) simp_all
    with A have "10000 * (10000 * 10000 ^ ?wb) \<le> a" by simp
    with B assms(3) show False by simp
  qed
  show ?thesis
  proof (cases "?wa = ?wb")
    case True
    then show ?thesis by (simp add: select_div_scale_def Let_def)
  next
    case False
    with mono up have w: "?wa = Suc ?wb" by simp
    have "a < 5 * (10000 * 10000 ^ ?wb)" using B assms(3) by simp
    then have "a div (10000 * 10000 ^ ?wb) < 5"
      by (simp add: less_mult_imp_div_less mult.commute)
    then have fa: "numeric_first_digit a < 5" by (simp add: numeric_first_digit_def w)
    have "10000 * 10000 ^ ?wb \<le> 5 * b" using A w assms(3) by simp
    then have "2000 * 10000 ^ ?wb \<le> b" by simp
    then have "2000 \<le> b div 10000 ^ ?wb"
      by (simp add: less_eq_div_iff_mult_less_eq)
    then have fb: "2000 \<le> numeric_first_digit b" by (simp add: numeric_first_digit_def)
    from fa fb w show ?thesis by (simp add: select_div_scale_def Let_def)
  qed
qed

lemma round_div_floor:
  fixes a b :: int
  assumes "0 < b"
  shows "(2 * a * 10 ^ s + b) div (2 * b) = \<lfloor>(of_int a / of_int b :: rat) * 10 ^ s + 1 / 2\<rfloor>"
proof -
  have "(of_int a / of_int b :: rat) * 10 ^ s + 1 / 2 = of_int (2 * a * 10 ^ s + b) / of_int (2 * b)"
    using assms by (simp add: field_simps)
  then show ?thesis by (simp only: floor_divide_of_int_eq)
qed

lemma numeric_div_rounds:
  assumes "0 < a" "0 < b"
  shows "numeric_div a b = round_half_up (of_int a / of_int b) (select_div_scale (nat a) (nat b))"
  using assms round_div_floor[OF assms(2), of a "select_div_scale (nat a) (nat b)"]
  by (simp add: numeric_div_def round_half_up_def Let_def)

lemma ratings_sum_bounds:
  "\<forall>x\<in>set xs. 1 \<le> x \<and> x \<le> (5::int) \<Longrightarrow>
     int (length xs) \<le> sum_list xs \<and> sum_list xs \<le> 5 * int (length xs)"
  by (induction xs) auto

lemma sql_avg_rounded:
  assumes ne: "xs \<noteq> []" and rg: "\<forall>x\<in>set xs. 1 \<le> x \<and> x \<le> 5"
  shows "sql_avg xs = Some (round_half_up (of_int (sum_list xs) / of_nat (length xs)) 16)
       \<or> sql_avg xs = Some (round_half_up (of_int (sum_list xs) / of_nat (length xs)) 20)"
proof -
  let ?S = "sum_list xs" and ?n = "length xs"
  from ne have n: "0 < ?n" by simp
  from ratings_sum_bounds[OF rg] have b: "int ?n \<le> ?S" "?S \<le> 5 * int ?n" by simp_all
  from n have "0 < int ?n" by simp
  with b have S: "0 < ?S" by linarith
  from b n have "?n \<le> nat ?S" "nat ?S \<le> 5 * ?n" by linarith+
  with scale_for_ratings[OF n] have s: "select_div_scale (nat ?S) ?n = 16 \<or> select_div_scale (nat ?S) ?n = 20"
    by blast
  from n have "0 < int ?n" by simp
  from numeric_div_rounds[OF S this]
  have "numeric_div ?S (int ?n) = round_half_up (of_int ?S / of_nat ?n) (select_div_scale (nat ?S) ?n)"
    by simp
  with s ne show ?thesis by (auto simp: sql_avg_def)
qed

text \<open>A number rounded to \<open>s\<close> places is within half a unit of the last place.\<close>

lemma round_half_up_close: "\<bar>round_half_up x s - x\<bar> \<le> 1 / (2 * 10 ^ s)"
proof -
  let ?y = "x * 10 ^ s + 1 / 2"
  have "of_int \<lfloor>?y\<rfloor> \<le> ?y" "?y < of_int \<lfloor>?y\<rfloor> + 1" by linarith+
  then have "\<bar>of_int \<lfloor>?y\<rfloor> - x * 10 ^ s\<bar> \<le> 1 / 2" by linarith
  then have "\<bar>of_int \<lfloor>?y\<rfloor> - x * 10 ^ s\<bar> / 10 ^ s \<le> (1 / 2) / 10 ^ s"
    by (intro divide_right_mono) simp_all
  moreover have "round_half_up x s - x = (of_int \<lfloor>?y\<rfloor> - x * 10 ^ s) / 10 ^ s"
    by (simp add: round_half_up_def diff_divide_distrib)
  then have "\<bar>round_half_up x s - x\<bar> = \<bar>of_int \<lfloor>?y\<rfloor> - x * 10 ^ s\<bar> / 10 ^ s"
    by (simp add: abs_divide)
  ultimately show ?thesis by simp
qed

lemma trigger_sets_aggregates:
  assumes "update_vehicle_rating new old d = Inr d'"
    and "(case new of Some n \<Rightarrow> Some (r_vehicle_id n) | None \<Rightarrow> map_option r_vehicle_id old) = Some vid"
    and "v \<in> set (vehicles d')" and "v_id v = vid"
  shows "aggregates_current d' v"
proof -
  let ?rs = "filter (\<lambda>r. r_vehicle_id r = vid) (reviews d)"
  let ?rating = "coalesce (sql_avg (map r_rating ?rs)) 0"
  from assms(1,2) have v': "vehicles d' =
      map (\<lambda>v. if v_id v = vid then v\<lparr>v_rating := Some ?rating, v_total_reviews := Some (int (length ?rs))\<rparr> else v)
        (vehicles d)"
    and r': "reviews d' = reviews d"
    by (auto simp: update_vehicle_rating_def Let_def split: if_splits)
  from assms(3) v' obtain x where x: "x \<in> set (vehicles d)"
    "v = (if v_id x = vid then x\<lparr>v_rating := Some ?rating, v_total_reviews := Some (int (length ?rs))\<rparr> else x)"
    by auto
  with assms(4) have "v_id x = vid"
    by (cases "v_id x = vid") simp_all
  with x have "v_rating v = Some ?rating" "v_total_reviews v = Some (int (length ?rs))"
    by simp_all
  then show ?thesis
    using assms(4) r' by (simp add: aggregates_current_def Let_def)
qed

lemma current_aggregates_match:
  assumes "aggregates_current d v" and "\<forall>r\<in>set (reviews d). 1 \<le> r_rating r \<and> r_rating r \<le> 5"
  shows "aggregates_match d v"
proof -
  let ?rs = "map r_rating (filter (\<lambda>r. r_vehicle_id r = v_id v) (reviews d))"
  from assms(1) have c: "v_rating v = Some (coalesce (sql_avg ?rs) 0)" "v_total_reviews v = Some (int (length ?rs))"
    by (simp_all add: aggregates_current_def Let_def)
  show ?thesis
  proof (cases "?rs = []")
    case True
    with c show ?thesis by (simp add: aggregates_match_def Let_def sql_avg_def coalesce_def)
  next
    case False
    from assms(2) have "\<forall>x\<in>set ?rs. 1 \<le> x \<and> x \<le> 5" by auto
    from sql_avg_rounded[OF False this] c False show ?thesis
      by (auto simp: aggregates_match_def Let_def coalesce_def)
  qed
qed

text \<open>Every stored review has a rating from 1 to 5.\<close>

lemma reviews_after_write:
  "exec_write w d = Inr d' \<Longrightarrow>
     set (reviews d') \<subseteq> set (reviews d) \<union> {r. reviews_check r = None}"
proof (cases w)
  case (InsertAuthUser u)
  assume "exec_write w d = Inr d'"
  with InsertAuthUser show ?thesis
    by (auto simp: insert_into_auth_users_def handle_new_user_def insert_into_profiles_def split: if_splits)
next
  case (DeleteAuthUser uid)
  assume "exec_write w d = Inr d'"
  with DeleteAuthUser show ?thesis
    by (auto simp: delete_from_auth_users_def Let_def dest!: deleted_review_triggers_frame)
next
  case (DeleteVehicle uid)
  assume "exec_write w d = Inr d'"
  with DeleteVehicle show ?thesis
    by (auto simp: delete_from_vehicles_def Let_def dest!: deleted_review_triggers_frame)
next
  case (DeleteBooking uid)
  assume "exec_write w d = Inr d'"
  with DeleteBooking show ?thesis
    by (auto simp: delete_from_bookings_def Let_def dest!: deleted_review_triggers_frame)
next
  case (InsertReview r)
  assume "exec_write w d = Inr d'"
  with InsertReview show ?thesis
    by (auto simp: insert_into_reviews_def split: option.splits if_splits dest!: update_vehicle_rating_frame)
next
  case (UpdateReview rid r)
  assume "exec_write w d = Inr d'"
  with UpdateReview show ?thesis
    by (auto simp: update_reviews_def split: option.splits if_splits dest!: update_vehicle_rating_frame)
next
  case (DeleteReview rid)
  assume "exec_write w d = Inr d'"
  with DeleteReview show ?thesis
    by (auto simp: delete_from_reviews_def split: option.splits if_splits dest!: update_vehicle_rating_frame)
qed (auto simp: insert_into_profiles_def update_profiles_def delete_from_profiles_def
      insert_into_vehicles_def update_vehicles_def insert_into_favorites_def update_favorites_def
      delete_from_favorites_def insert_into_bookings_def update_bookings_def
      split: option.splits if_splits)

lemma reachable_reviews_checked:
  "reachable d \<Longrightarrow> \<forall>r\<in>set (reviews d). 1 \<le> r_rating r \<and> r_rating r \<le> 5"
proof (induction rule: reachable.induct)
  case (initial us gen)
  show ?case by (simp add: initial_db_def)
next
  case (step d w d')
  have "\<And>r. reviews_check r = None \<Longrightarrow> 1 \<le> r_rating r \<and> r_rating r \<le> 5"
    by (simp add: reviews_check_def split: if_splits)
  with reviews_after_write[OF step.hyps(2)] step.IH show ?case by blast
qed

text \<open>
  C1. The claim is that after any insert, update or delete of a review every vehicle's
  stored rating is the mean of its reviews' ratings (0 without reviews) and its stored
  review count their number. The trigger recomputes one vehicle, the one whose id the
  written row carries, and its average is a rounded quotient. In a reachable state,
  after an insert or an update of a review the vehicle named by the new row, and after a
  delete the vehicle named by the removed row, has as review count the number of the
  reviews now associated with it, and as rating the arithmetic mean of their ratings
  rounded, halves up, to 16 decimal places or to 20 (0 when none remain).
\<close>

theorem review_write_recomputes_vehicle:
  "reachable d \<longrightarrow>
     (insert_into_reviews r d = Inr d' \<longrightarrow>
        (\<forall>v\<in>set (vehicles d'). v_id v = r_vehicle_id r \<longrightarrow> aggregates_match d' v))
     \<and> (update_reviews rid r d = Inr d' \<and> (\<exists>x\<in>set (reviews d). r_id x = rid) \<longrightarrow>
        (\<forall>v\<in>set (vehicles d'). v_id v = r_vehicle_id r \<longrightarrow> aggregates_match d' v))
     \<and> (delete_from_reviews rid d = Inr d' \<longrightarrow>
        (\<forall>old. find (\<lambda>x. r_id x = rid) (reviews d) = Some old \<longrightarrow>
           (\<forall>v\<in>set (vehicles d'). v_id v = r_vehicle_id old \<longrightarrow> aggregates_match d' v)))"
proof (intro conjI impI allI ballI)
  fix v
  assume r: "reachable d" and w: "insert_into_reviews r d = Inr d'"
    and v: "v \<in> set (vehicles d')" "v_id v = r_vehicle_id r"
  from w have "exec_write (InsertReview r) d = Inr d'" by simp
  with r have "reachable d'" by (rule reachable.step)
  then have rg: "\<forall>r\<in>set (reviews d'). 1 \<le> r_rating r \<and> r_rating r \<le> 5"
    by (rule reachable_reviews_checked)
  from trigger_sets_aggregates[OF insert_review_effect[OF w], of "r_vehicle_id r" v] v
  have "aggregates_current d' v" by simp
  then show "aggregates_match d' v" using rg by (rule current_aggregates_match)
next
  fix v
  assume r: "reachable d"
    and a: "update_reviews rid r d = Inr d' \<and> (\<exists>x\<in>set (reviews d). r_id x = rid)"
    and v: "v \<in> set (vehicles d')" "v_id v = r_vehicle_id r"
  from a have "exec_write (UpdateReview rid r) d = Inr d'" by simp
  with r have "reachable d'" by (rule reachable.step)
  then have rg: "\<forall>r\<in>set (reviews d'). 1 \<le> r_rating r \<and> r_rating r \<le> 5"
    by (rule reachable_reviews_checked)
  from a find_Some_ex[of "reviews d" "\<lambda>x. r_id x = rid"]
  obtain old where "find (\<lambda>x. r_id x = rid) (reviews d) = Some old" by auto
  with a have "update_vehicle_rating (Some r) (Some old)
       (d\<lparr>reviews := map (\<lambda>x. if r_id x = rid then r else x) (reviews d)\<rparr>) = Inr d'"
    using update_review_effect by blast
  from trigger_sets_aggregates[OF this, of "r_vehicle_id r" v] v
  have "aggregates_current d' v" by simp
  then show "aggregates_match d' v" using rg by (rule current_aggregates_match)
next
  fix old v
  assume r: "reachable d"
    and a: "delete_from_reviews rid d = Inr d'" "find (\<lambda>x. r_id x = rid) (reviews d) = Some old"
    and v: "v \<in> set (vehicles d')" "v_id v = r_vehicle_id old"
  from a have "exec_write (DeleteReview rid) d = Inr d'" by simp
  with r have "reachable d'" by (rule reachable.step)
  then have rg: "\<forall>r\<in>set (reviews d'). 1 \<le> r_rating r \<and> r_rating r \<le> 5"
    by (rule reachable_reviews_checked)
  from trigger_sets_aggregates[OF delete_review_effect[OF a], of "r_vehicle_id old" v] v
  have "aggregates_current d' v" by simp
  then show "aggregates_match d' v" using rg by (rule current_aggregates_match)
qed

theorem review_write_recomputes_vehicle_witness:
  "insert_into_reviews review2 db_two_reviews = Inr db_three_reviews
   \<and> aggregates_match db_three_reviews (hd (vehicles db_three_reviews))
   \<and> v_rating (hd (vehicles db_three_reviews)) = Some (46666666666666667 / 10 ^ 16)
   \<and> v_total_reviews (hd (vehicles db_three_reviews)) = Some 3
   \<and> update_reviews 62 (review2\<lparr>r_rating := 4\<rparr>) db_three_reviews = Inr db_rerated
   \<and> aggregates_match db_rerated (hd (vehicles db_rerated))
   \<and> delete_from_reviews 60 db_three_reviews = Inr db_fives
   \<and> aggregates_match db_fives (hd (vehicles db_fives))
   \<and> v_rating (hd (vehicles db_fives)) = Some 5
   \<and> v_total_reviews (hd (vehicles db_fives)) = Some 2"
proof -
  have i: "insert_into_reviews review2 db_two_reviews = Inr db_three_reviews"
    by (simp add: write_defs Let_def example_defs)
  have u: "update_reviews 62 (review2\<lparr>r_rating := 4\<rparr>) db_three_reviews = Inr db_rerated"
    by (simp add: update_reviews_def write_defs Let_def example_defs)
  have x: "\<exists>x\<in>set (reviews db_three_reviews). r_id x = 62"
    by (simp add: example_defs)
  have dl: "delete_from_reviews 60 db_three_reviews = Inr db_fives"
    by (simp add: delete_from_reviews_def write_defs Let_def example_defs)
  have f: "find (\<lambda>x. r_id x = 60) (reviews db_three_reviews) = Some review0"
    by (simp add: example_defs)
  have 1: "aggregates_match db_three_reviews (hd (vehicles db_three_reviews))"
    using review_write_recomputes_vehicle[where d = db_two_reviews and r = review2
        and d' = db_three_reviews] reachable_db_two_reviews i
    by (simp add: example_defs)
  have 2: "aggregates_match db_rerated (hd (vehicles db_rerated))"
    using review_write_recomputes_vehicle[where d = db_three_reviews
        and r = "review2\<lparr>r_rating := 4\<rparr>" and d' = db_rerated and rid = 62]
      reachable_db_three_reviews u x
    by (simp add: example_defs)
  have 3: "aggregates_match db_fives (hd (vehicles db_fives))"
    using review_write_recomputes_vehicle[where d = db_three_reviews and d' = db_fives and rid = 60]
      reachable_db_three_reviews dl f
    by (simp add: example_defs)
  show ?thesis using i u dl 1 2 3 by (simp add: example_defs)
qed

text \<open>
  Not every vehicle: the migration gives the sample vehicles ratings and review counts
  of their own, and a review written for the Camry leaves the Honda at 4.7 and 31 with no
  review to its name. And not the mean itself: reviews rated 4, 5 and 5 give the Camry
  the rating 4.6666666666666667, which is not 14/3.
\<close>

theorem stored_rating_counterexample:
  "exec_writes [InsertBooking completed_trip, InsertReview review0] (initial_db [alice, bob] id)
     = Inr db_reviewed
   \<and> v_name (vehicles db_reviewed ! 1) = ''Honda CR-V 2023''
   \<and> filter (\<lambda>r. r_vehicle_id r = v_id (vehicles db_reviewed ! 1)) (reviews db_reviewed) = []
   \<and> v_rating (vehicles db_reviewed ! 1) = Some (47 / 10)
   \<and> v_total_reviews (vehicles db_reviewed ! 1) = Some 31
   \<and> insert_into_reviews review2 db_two_reviews = Inr db_three_reviews
   \<and> map r_rating (filter (\<lambda>r. r_vehicle_id r = v_id (hd (vehicles db_three_reviews)))
                      (reviews db_three_reviews)) = [4, 5, 5]
   \<and> v_rating (hd (vehicles db_three_reviews)) = Some (46666666666666667 / 10 ^ 16)
   \<and> (46666666666666667 / 10 ^ 16 :: rat) \<noteq> (4 + 5 + 5) / 3"
  by (simp add: write_defs Let_def example_defs)

text \<open>
  A vehicle that held what the trigger computes from its reviews still does after a
  review is inserted, deleted, or updated without being moved to another vehicle.
\<close>

lemma trigger_keeps_other_vehicles:
  assumes "update_vehicle_rating new old d = Inr d'"
    and "(case new of Some n \<Rightarrow> Some (r_vehicle_id n) | None \<Rightarrow> map_option r_vehicle_id old) = Some vid"
    and "v \<in> set (vehicles d')" and "v_id v \<noteq> vid"
  shows "v \<in> set (vehicles d)"
  using assms by (auto simp: update_vehicle_rating_def Let_def split: if_splits)

lemma recompute_preserves:
  assumes t: "update_vehicle_rating new old d1 = Inr d'"
    and tgt: "(case new of Some n \<Rightarrow> Some (r_vehicle_id n) | None \<Rightarrow> map_option r_vehicle_id old) = Some vid"
    and vs: "vehicles d1 = vehicles d"
    and rs: "\<forall>w. w \<noteq> vid \<longrightarrow> filter (\<lambda>r. r_vehicle_id r = w) (reviews d1) = filter (\<lambda>r. r_vehicle_id r = w) (reviews d)"
    and inv: "\<forall>v\<in>set (vehicles d). aggregates_current d v"
  shows "\<forall>v\<in>set (vehicles d'). aggregates_current d' v"
proof
  fix v assume v: "v \<in> set (vehicles d')"
  show "aggregates_current d' v"
  proof (cases "v_id v = vid")
    case True
    with trigger_sets_aggregates[OF t tgt v] show ?thesis by simp
  next
    case False
    from trigger_keeps_other_vehicles[OF t tgt v False] vs have "v \<in> set (vehicles d)" by simp
    with inv have "aggregates_current d v" by simp
    moreover from update_vehicle_rating_frame[OF t] have "reviews d' = reviews d1" by simp
    ultimately show ?thesis using rs False by (simp add: aggregates_current_def)
  qed
qed

lemma review_write_keeps_agreement:
  assumes inv: "\<forall>v\<in>set (vehicles d). aggregates_current d v"
  shows "(insert_into_reviews r d = Inr d' \<longrightarrow> (\<forall>v\<in>set (vehicles d'). aggregates_current d' v))
   \<and> (update_reviews rid r d = Inr d' \<and> (\<forall>x\<in>set (reviews d). r_id x = rid \<longrightarrow> r_vehicle_id x = r_vehicle_id r)
        \<longrightarrow> (\<forall>v\<in>set (vehicles d'). aggregates_current d' v))
   \<and> (delete_from_reviews rid d = Inr d' \<and> distinct (map r_id (reviews d))
        \<longrightarrow> (\<forall>v\<in>set (vehicles d'). aggregates_current d' v))"
proof (intro conjI impI)
  assume "insert_into_reviews r d = Inr d'"
  from recompute_preserves[OF insert_review_effect[OF this], of "r_vehicle_id r" d] inv
  show "\<forall>v\<in>set (vehicles d'). aggregates_current d' v" by simp
next
  assume a: "update_reviews rid r d = Inr d' \<and> (\<forall>x\<in>set (reviews d). r_id x = rid \<longrightarrow> r_vehicle_id x = r_vehicle_id r)"
  show "\<forall>v\<in>set (vehicles d'). aggregates_current d' v"
  proof (cases "find (\<lambda>x. r_id x = rid) (reviews d)")
    case None
    with a have "d' = d" by (simp add: update_reviews_def)
    with inv show ?thesis by simp
  next
    case (Some old)
    have "\<forall>w. w \<noteq> r_vehicle_id r \<longrightarrow>
       filter (\<lambda>x. r_vehicle_id x = w) (map (\<lambda>x. if r_id x = rid then r else x) (reviews d))
       = filter (\<lambda>x. r_vehicle_id x = w) (reviews d)"
      using a by (auto intro!: filter_map_replace_other)
    with recompute_preserves[OF update_review_effect[OF conjunct1[OF a] Some], of "r_vehicle_id r" d] inv
    show ?thesis by simp
  qed
next
  assume a: "delete_from_reviews rid d = Inr d' \<and> distinct (map r_id (reviews d))"
  show "\<forall>v\<in>set (vehicles d'). aggregates_current d' v"
  proof (cases "find (\<lambda>x. r_id x = rid) (reviews d)")
    case None
    with a have "d' = d" by (simp add: delete_from_reviews_def)
    with inv show ?thesis by simp
  next
    case (Some old)
    from find_SomeD[OF Some] have o: "r_id old = rid" "old \<in> set (reviews d)" by simp_all
    with a have "\<forall>x\<in>set (reviews d). r_id x = rid \<longrightarrow> x = old"
      by (auto simp: distinct_map inj_on_def)
    then have "\<forall>w. w \<noteq> r_vehicle_id old \<longrightarrow>
       filter (\<lambda>x. r_vehicle_id x = w) (filter (\<lambda>x. r_id x \<noteq> rid) (reviews d))
       = filter (\<lambda>x. r_vehicle_id x = w) (reviews d)"
      by (auto intro!: filter_cong)
    with recompute_preserves[OF delete_review_effect[OF conjunct1[OF a] Some], of "r_vehicle_id old" d] inv
    show ?thesis by simp
  qed
qed

text \<open>
  An update that moves a review to another vehicle recomputes the vehicle of the new
  row only: the Camry keeps the rating of a review it no longer has.
\<close>

lemma moved_review_old_vehicle:
  "update_reviews 60 (review0\<lparr>r_vehicle_id := 1\<rparr>) db_reviewed = Inr db_moved
   \<and> filter (\<lambda>r. r_vehicle_id r = v_id (hd (vehicles db_moved))) (reviews db_moved) = []
   \<and> v_rating (hd (vehicles db_moved)) = Some 4
   \<and> v_total_reviews (hd (vehicles db_moved)) = Some 1"
  by (simp add: update_reviews_def write_defs Let_def example_defs)

text \<open>
  C2. Submitting a review is to fail with "review not allowed" when the booking is not
  the requester's or not completed, and with "duplicate review" when the requester has
  reviewed the booking already. The session's \<^verbatim>\<open>INSERT INTO reviews\<close> is aborted before
  its policy or any constraint is evaluated, with the recursion error of the policies of
  \<^verbatim>\<open>profiles\<close>: for Bob reviewing Alice's booking, for Alice reviewing her booking a
  second time, and just so for Alice's first review of her own completed booking.
\<close>

theorem submitted_review_aborts:
  "insert_review 8 (review0\<lparr>r_id := 61, r_user_id := 8\<rparr>) db_completed
     = Inl (InfiniteRecursion ''profiles'')
   \<and> insert_review 7 (review0\<lparr>r_id := 61, r_rating := 5\<rparr>) db_reviewed
     = Inl (InfiniteRecursion ''profiles'')
   \<and> insert_review 7 review0 db_completed = Inl (InfiniteRecursion ''profiles'')
   \<and> bookings db_completed = [completed_trip] \<and> reviews db_completed = []
   \<and> reviews db_reviewed = [review0]
   \<and> r_user_id review0 = 7 \<and> r_booking_id review0 = b_id completed_trip
   \<and> b_user_id completed_trip = 7 \<and> b_status completed_trip = ''completed''"
  by (simp add: session_statements_abort example_defs)

text \<open>The table itself does reject a second review of a booking by the same user.\<close>

lemma duplicate_review_rejected_by_table:
  "\<exists>x\<in>set (reviews d). r_user_id x = r_user_id r \<and> r_booking_id x = r_booking_id r \<Longrightarrow>
     \<exists>e. insert_into_reviews r d = Inl e"
  by (auto simp: insert_into_reviews_def list_ex_iff split: option.splits)

subsection \<open>Bookings\<close>

lemma bookings_after_write:
  "exec_write w d = Inr d' \<Longrightarrow>
     set (bookings d') \<subseteq> set (bookings d) \<union> {b. bookings_check b = None}"
proof (cases w)
  case (InsertAuthUser u)
  assume "exec_write w d = Inr d'"
  with InsertAuthUser show ?thesis
    by (auto simp: insert_into_auth_users_def handle_new_user_def insert_into_profiles_def split: if_splits)
next
  case (DeleteAuthUser uid)
  assume "exec_write w d = Inr d'"
  with DeleteAuthUser show ?thesis
    by (auto simp: delete_from_auth_users_def Let_def dest!: deleted_review_triggers_frame)
next
  case (DeleteVehicle uid)
  assume "exec_write w d = Inr d'"
  with DeleteVehicle show ?thesis
    by (auto simp: delete_from_vehicles_def Let_def dest!: deleted_review_triggers_frame)
next
  case (DeleteBooking uid)
  assume "exec_write w d = Inr d'"
  with DeleteBooking show ?thesis
    by (auto simp: delete_from_bookings_def Let_def dest!: deleted_review_triggers_frame)
next
  case (InsertBooking b)
  assume "exec_write w d = Inr d'"
  with InsertBooking show ?thesis
    by (auto simp: insert_into_bookings_def split: option.splits if_splits)
next
  case (UpdateBooking bid b)
  assume "exec_write w d = Inr d'"
  with UpdateBooking show ?thesis
    by (auto simp: update_bookings_def split: option.splits if_splits)
next
  case (InsertReview r)
  assume "exec_write w d = Inr d'"
  with InsertReview show ?thesis
    by (auto simp: insert_into_reviews_def split: option.splits if_splits dest!: update_vehicle_rating_frame)
next
  case (UpdateReview rid r)
  assume "exec_write w d = Inr d'"
  with UpdateReview show ?thesis
    by (auto simp: update_reviews_def split: option.splits if_splits dest!: update_vehicle_rating_frame)
next
  case (DeleteReview rid)
  assume "exec_write w d = Inr d'"
  with DeleteReview show ?thesis
    by (auto simp: delete_from_reviews_def split: option.splits if_splits dest!: update_vehicle_rating_frame)
qed (auto simp: insert_into_profiles_def update_profiles_def delete_from_profiles_def
      insert_into_vehicles_def update_vehicles_def insert_into_favorites_def update_favorites_def
      delete_from_favorites_def split: option.splits if_splits)

lemma reachable_bookings_checked:
  "reachable d \<Longrightarrow> \<forall>b\<in>set (bookings d). bookings_check b = None"
proof (induction rule: reachable.induct)
  case (initial us gen)
  show ?case by (simp add: initial_db_def)
next
  case (step d w d')
  from bookings_after_write[OF step.hyps(2)] step.IH show ?case by auto
qed

lemma bookings_check_dates: "bookings_check b = None \<Longrightarrow> b_end_date b > b_start_date b"
  by (simp add: bookings_check_def split: if_splits)

text \<open>
  C3. Every stored booking ends strictly after it starts. Creating a booking whose end
  is not after its start fails and stores nothing; when the request is the requester's
  own and leaves status, payment status and fuel levels to their defaults, the failure is
  the violation of the constraint \<^verbatim>\<open>valid_dates\<close>.
\<close>

theorem stored_bookings_valid_dates:
  "(reachable d \<longrightarrow> (\<forall>b\<in>set (bookings d). b_end_date b > b_start_date b))
   \<and> (bv_end_date v \<le> bv_start_date v \<longrightarrow> (\<exists>e. insert_booking uid gen now v d = Inl e))
   \<and> (bv_end_date v \<le> bv_start_date v \<and> bv_user_id v = uid \<and> bv_status v = None
        \<and> bv_payment_status v = None \<and> bv_fuel_level_pickup v = None
        \<and> bv_fuel_level_dropoff v = None
      \<longrightarrow> insert_booking uid gen now v d = Inl (CheckViolation ''valid_dates''))"
proof (intro conjI impI)
  assume "reachable d"
  then show "\<forall>b\<in>set (bookings d). b_end_date b > b_start_date b"
    using reachable_bookings_checked bookings_check_dates by blast
next
  assume "bv_end_date v \<le> bv_start_date v"
  then have "bookings_check (bookings_defaults gen now v) \<noteq> None"
    by (simp add: bookings_check_def bookings_defaults_def)
  then show "\<exists>e. insert_booking uid gen now v d = Inl e"
    by (auto simp: insert_booking_def insert_into_bookings_def Let_def)
next
  assume "bv_end_date v \<le> bv_start_date v \<and> bv_user_id v = uid \<and> bv_status v = None
        \<and> bv_payment_status v = None \<and> bv_fuel_level_pickup v = None
        \<and> bv_fuel_level_dropoff v = None"
  then show "insert_booking uid gen now v d = Inl (CheckViolation ''valid_dates'')"
    by (simp add: insert_booking_def insert_into_bookings_def Let_def bookings_insert_policy_def
        bookings_check_def bookings_defaults_def coalesce_def fuel_level_ok_def)
qed

theorem stored_bookings_valid_dates_witness:
  "b_start_date completed_trip < b_end_date completed_trip
   \<and> insert_booking 7 42 96 (trip\<lparr>bv_end_date := 100\<rparr>) db_completed = Inl (CheckViolation ''valid_dates'')
   \<and> insert_booking 7 42 96 (trip\<lparr>bv_end_date := 50, bv_status := Some ''confirmed''\<rparr>) db_completed
        = Inl (CheckViolation ''valid_dates'')"
proof -
  have m: "completed_trip \<in> set (bookings db_completed)"
    by (simp add: db_completed_def)
  from stored_bookings_valid_dates[of db_completed] reachable_db_completed m
  have 1: "b_start_date completed_trip < b_end_date completed_trip"
    by blast
  have h: "bv_end_date (trip\<lparr>bv_end_date := 100\<rparr>) \<le> bv_start_date (trip\<lparr>bv_end_date := 100\<rparr>)
      \<and> bv_user_id (trip\<lparr>bv_end_date := 100\<rparr>) = 7 \<and> bv_status (trip\<lparr>bv_end_date := 100\<rparr>) = None
      \<and> bv_payment_status (trip\<lparr>bv_end_date := 100\<rparr>) = None
      \<and> bv_fuel_level_pickup (trip\<lparr>bv_end_date := 100\<rparr>) = None
      \<and> bv_fuel_level_dropoff (trip\<lparr>bv_end_date := 100\<rparr>) = None"
    by (simp add: trip_def)
  from stored_bookings_valid_dates[of db_completed "trip\<lparr>bv_end_date := 100\<rparr>" 7 42 96] h
  have 2: "insert_booking 7 42 96 (trip\<lparr>bv_end_date := 100\<rparr>) db_completed = Inl (CheckViolation ''valid_dates'')"
    by blast
  have h3: "bv_end_date (trip\<lparr>bv_end_date := 50, bv_status := Some ''confirmed''\<rparr>)
      \<le> bv_start_date (trip\<lparr>bv_end_date := 50, bv_status := Some ''confirmed''\<rparr>)"
    by (simp add: trip_def)
  from stored_bookings_valid_dates[of db_completed "trip\<lparr>bv_end_date := 50, bv_status := Some ''confirmed''\<rparr>" 7 42 96] h3
  obtain e where "insert_booking 7 42 96 (trip\<lparr>bv_end_date := 50, bv_status := Some ''confirmed''\<rparr>) db_completed = Inl e"
    by blast
  then have 3: "insert_booking 7 42 96 (trip\<lparr>bv_end_date := 50, bv_status := Some ''confirmed''\<rparr>) db_completed
        = Inl (CheckViolation ''valid_dates'')"
    by (simp add: insert_booking_def bookings_insert_policy_def bookings_defaults_def Let_def
        write_defs example_defs)
  from 1 2 3 show ?thesis by simp
qed

text \<open>
  C4. A booking is shown under "upcoming" exactly when its start date is strictly later
  than the current time or its status is \<^verbatim>\<open>active\<close>; every other booking is shown under
  "past". The classification is a function of the start date, the status and the current
  time alone: two bookings that agree on start date and status are classified alike.
\<close>

theorem isUpcoming_classification:
  "(b \<in> set (filteredBookings Upcoming now bs)) =
     (b \<in> set bs \<and> (b_start_date b > now \<or> b_status b = ''active''))
   \<and> (b \<in> set (filteredBookings Past now bs)) =
     (b \<in> set bs \<and> \<not> (b_start_date b > now \<or> b_status b = ''active''))
   \<and> isUpcoming now b = (b_start_date b > now \<or> b_status b = ''active'')
   \<and> isUpcoming now b =
       isUpcoming now (b'\<lparr>b_start_date := b_start_date b, b_status := b_status b\<rparr>)"
  by (simp add: filteredBookings_def isUpcoming_def)

theorem isUpcoming_classification_witness:
  "filteredBookings Upcoming 99 [pending_trip, completed_trip, bob_trip] = [pending_trip, completed_trip, bob_trip]
   \<and> filteredBookings Upcoming 350 [pending_trip, completed_trip, bob_trip] = [bob_trip]
   \<and> filteredBookings Past 350 [pending_trip, completed_trip, bob_trip] = [pending_trip, completed_trip]
   \<and> isUpcoming 100 pending_trip = False"
  using isUpcoming_classification[of pending_trip 100 "[pending_trip, completed_trip, bob_trip]" pending_trip]
  by (simp add: filteredBookings_def isUpcoming_def example_defs)

text \<open>
  C5. When creating a booking succeeds and the request leaves status and payment status
  to the table (as a request made of requester, vehicle, dates, pickup location and price
  does), the created booking has status \<^verbatim>\<open>pending\<close>, payment status \<^verbatim>\<open>pending\<close>, and the
  requester as its owner.
\<close>

theorem created_booking_pending:
  "insert_booking uid gen now v d = Inr d' \<and> bv_status v = None \<and> bv_payment_status v = None
   \<longrightarrow> (\<exists>b. bookings d' = bookings d @ [b] \<and> b_status b = ''pending''
            \<and> b_payment_status b = ''pending'' \<and> b_user_id b = uid)"
  by (auto simp: insert_booking_def insert_into_bookings_def Let_def bookings_insert_policy_def
        bookings_defaults_def coalesce_def split: option.splits if_splits)

theorem created_booking_pending_witness:
  "insert_booking 7 40 90 trip db_start = Inr db_booked
   \<and> map b_status (bookings db_booked) = [''pending'']
   \<and> map b_payment_status (bookings db_booked) = [''pending'']
   \<and> map b_user_id (bookings db_booked) = [7]"
proof -
  have ok: "insert_booking 7 40 90 trip db_start = Inr db_booked"
    by (simp add: request_defs write_defs example_defs)
  have "bv_status trip = None" "bv_payment_status trip = None"
    by (simp_all add: trip_def)
  with created_booking_pending[of 7 40 90 trip db_start db_booked] ok
  obtain b where "bookings db_booked = bookings db_start @ [b]" "b_status b = ''pending''"
    "b_payment_status b = ''pending''" "b_user_id b = 7"
    by blast
  then have "map b_status (bookings db_booked) = [''pending'']
     \<and> map b_payment_status (bookings db_booked) = [''pending'']
     \<and> map b_user_id (bookings db_booked) = [7]"
    by (simp add: db_start_def initial_db_def)
  with ok show ?thesis by simp
qed

text \<open>
  C6. The claim is that creating a booking fails when the vehicle does not exist or is
  not marked available. The table asks for the first only: creating a booking succeeds
  only for an existing vehicle, fails when the vehicle does not exist (with the violation
  of the foreign key when the request is otherwise in order), and does not depend on any
  vehicle's \<^verbatim>\<open>available\<close> flag.
\<close>

theorem booking_needs_existing_vehicle:
  "(insert_booking uid gen now v d = Inr d' \<longrightarrow> (\<exists>x\<in>set (vehicles d). v_id x = bv_vehicle_id v))
   \<and> (\<not> (\<exists>x\<in>set (vehicles d). v_id x = bv_vehicle_id v)
        \<longrightarrow> (\<exists>e. insert_booking uid gen now v d = Inl e))
   \<and> (\<not> (\<exists>x\<in>set (vehicles d). v_id x = bv_vehicle_id v)
        \<and> bookings_insert_policy uid (bookings_defaults gen now v)
        \<and> bookings_check (bookings_defaults gen now v) = None
        \<and> \<not> (\<exists>x\<in>set (bookings d). b_id x = coalesce (bv_id v) gen)
        \<and> (\<exists>u\<in>set (auth_users d). u_id u = bv_user_id v)
        \<longrightarrow> insert_booking uid gen now v d = Inl (ForeignKeyViolation ''bookings_vehicle_id_fkey''))
   \<and> insert_booking uid gen now v (d\<lparr>vehicles := map (\<lambda>x. x\<lparr>v_available := a x\<rparr>) (vehicles d)\<rparr>)
       = map_sum id (\<lambda>d'. d'\<lparr>vehicles := map (\<lambda>x. x\<lparr>v_available := a x\<rparr>) (vehicles d)\<rparr>)
           (insert_booking uid gen now v d)"
proof (intro conjI impI)
  assume "insert_booking uid gen now v d = Inr d'"
  then show "\<exists>x\<in>set (vehicles d). v_id x = bv_vehicle_id v"
    by (auto simp: insert_booking_def insert_into_bookings_def Let_def list_ex_iff
        bookings_defaults_def split: option.splits if_splits)
next
  assume "\<not> (\<exists>x\<in>set (vehicles d). v_id x = bv_vehicle_id v)"
  then show "\<exists>e. insert_booking uid gen now v d = Inl e"
    by (auto simp: insert_booking_def insert_into_bookings_def Let_def list_ex_iff
        bookings_defaults_def split: option.splits if_splits)
next
  assume "\<not> (\<exists>x\<in>set (vehicles d). v_id x = bv_vehicle_id v)
        \<and> bookings_insert_policy uid (bookings_defaults gen now v)
        \<and> bookings_check (bookings_defaults gen now v) = None
        \<and> \<not> (\<exists>x\<in>set (bookings d). b_id x = coalesce (bv_id v) gen)
        \<and> (\<exists>u\<in>set (auth_users d). u_id u = bv_user_id v)"
  then show "insert_booking uid gen now v d = Inl (ForeignKeyViolation ''bookings_vehicle_id_fkey'')"
    by (auto simp: insert_booking_def insert_into_bookings_def Let_def list_ex_iff
        bookings_defaults_def split: option.splits if_splits)
next
  show "insert_booking uid gen now v (d\<lparr>vehicles := map (\<lambda>x. x\<lparr>v_available := a x\<rparr>) (vehicles d)\<rparr>)
       = map_sum id (\<lambda>d'. d'\<lparr>vehicles := map (\<lambda>x. x\<lparr>v_available := a x\<rparr>) (vehicles d)\<rparr>)
           (insert_booking uid gen now v d)"
    by (auto simp: insert_booking_def insert_into_bookings_def Let_def list_ex_iff
        split: option.splits if_splits)
qed

theorem booking_needs_existing_vehicle_witness:
  "insert_booking 7 40 90 trip db_start = Inr db_booked
   \<and> list_ex (\<lambda>x. v_id x = bv_vehicle_id trip) (vehicles db_start)
   \<and> insert_booking 7 40 90 (trip\<lparr>bv_vehicle_id := 99\<rparr>) db_start
       = Inl (ForeignKeyViolation ''bookings_vehicle_id_fkey'')"
proof -
  have ok: "insert_booking 7 40 90 trip db_start = Inr db_booked"
    by (simp add: request_defs write_defs example_defs)
  from booking_needs_existing_vehicle[of 7 40 90 trip db_start db_booked] ok
  have 1: "list_ex (\<lambda>x. v_id x = bv_vehicle_id trip) (vehicles db_start)"
    by (simp add: list_ex_iff)
  have h: "\<not> (\<exists>x\<in>set (vehicles db_start). v_id x = bv_vehicle_id (trip\<lparr>bv_vehicle_id := 99\<rparr>))
        \<and> bookings_insert_policy 7 (bookings_defaults 40 90 (trip\<lparr>bv_vehicle_id := 99\<rparr>))
        \<and> bookings_check (bookings_defaults 40 90 (trip\<lparr>bv_vehicle_id := 99\<rparr>)) = None
        \<and> \<not> (\<exists>x\<in>set (bookings db_start). b_id x = coalesce (bv_id (trip\<lparr>bv_vehicle_id := 99\<rparr>)) 40)
        \<and> (\<exists>u\<in>set (auth_users db_start). u_id u = bv_user_id (trip\<lparr>bv_vehicle_id := 99\<rparr>))"
    by (simp add: request_defs write_defs example_defs)
  from booking_needs_existing_vehicle[of 7 40 90 "trip\<lparr>bv_vehicle_id := 99\<rparr>" db_start] h
  have 2: "insert_booking 7 40 90 (trip\<lparr>bv_vehicle_id := 99\<rparr>) db_start
       = Inl (ForeignKeyViolation ''bookings_vehicle_id_fkey'')"
    by blast
  from ok 1 2 show ?thesis by simp
qed

text \<open>The Camry marked unavailable is booked all the same.\<close>

theorem unavailable_vehicle_booked_counterexample:
  "exec_writes [UpdateVehicle 0 ((hd (sample_vehicles id))\<lparr>v_available := Some False\<rparr>)]
      (initial_db [alice, bob] id) = Inr db_unavailable
   \<and> map v_available (filter (\<lambda>v. v_id v = bv_vehicle_id trip) (vehicles db_unavailable)) = [Some False]
   \<and> insert_booking 7 40 90 trip db_unavailable = Inr (db_unavailable\<lparr>bookings := [pending_trip]\<rparr>)"
  by (simp add: request_defs write_defs example_defs)

text \<open>
  The query of the bookings screen is aborted in every session and state: the screen
  never ends with rows loaded.
\<close>

lemma fetchBookings_never_loads: "fetchBookings session d \<noteq> Loaded rows"
  by (simp add: fetchBookings_def bookings_with_vehicles_def session_statements_abort
      split: option.splits)

text \<open>
  C7. The bookings screen is to fetch, for the identity signed in, exactly the bookings
  whose \<^verbatim>\<open>user_id\<close> is that identity. Its query reads \<^verbatim>\<open>bookings\<close> under policies that
  sub-select \<^verbatim>\<open>profiles\<close> and is aborted: for Alice, who has a booking, the screen ends in
  the failure and is handed no rows.
\<close>

theorem fetchBookings_fails:
  "fetchBookings (Some alice) db_office = Failed (InfiniteRecursion ''profiles'')
   \<and> filter (\<lambda>b. b_user_id b = u_id alice) (bookings db_office) = [completed_trip]"
  by (simp add: fetchBookings_def getCurrentUser_def select_profile_no_data
      bookings_with_vehicles_def session_statements_abort js_or_def admin_email_def Let_def
      example_defs)

subsection \<open>Favorites\<close>

lemma favorites_unique_write:
  assumes "favorites_unique d" and w: "exec_write w d = Inr d'"
  shows "favorites_unique d'"
proof (cases w)
  case (InsertAuthUser u)
  with w have "favorites d' = favorites d"
    by (auto simp: insert_into_auth_users_def handle_new_user_def insert_into_profiles_def split: if_splits)
  with assms show ?thesis by (simp add: favorites_unique_def)
next
  case (DeleteAuthUser uid)
  with w have "favorites d' = filter (\<lambda>f. f_user_id f \<noteq> uid) (favorites d)"
    by (auto simp: delete_from_auth_users_def Let_def dest!: deleted_review_triggers_frame)
  with assms show ?thesis by (simp add: favorites_unique_def distinct_map_filter)
next
  case (DeleteVehicle vid)
  with w have "favorites d' = filter (\<lambda>f. f_vehicle_id f \<noteq> vid) (favorites d)"
    by (auto simp: delete_from_vehicles_def Let_def dest!: deleted_review_triggers_frame)
  with assms show ?thesis by (simp add: favorites_unique_def distinct_map_filter)
next
  case (DeleteBooking bid)
  with w have "favorites d' = favorites d"
    by (auto simp: delete_from_bookings_def dest!: deleted_review_triggers_frame)
  with assms show ?thesis by (simp add: favorites_unique_def)
next
  case (InsertFavorite f)
  with w have "favorites d' = favorites d @ [f]"
    and "\<not> list_ex (\<lambda>x. f_id x = f_id f) (favorites d)"
    and "\<not> list_ex (\<lambda>x. f_user_id x = f_user_id f \<and> f_vehicle_id x = f_vehicle_id f) (favorites d)"
    by (auto simp: insert_into_favorites_def split: if_splits)
  with assms show ?thesis by (auto simp: favorites_unique_def list_ex_iff)
next
  case (UpdateFavorite fid f)
  show ?thesis
  proof (cases "find (\<lambda>x. f_id x = fid) (favorites d)")
    case None
    with w UpdateFavorite have "d' = d" by (simp add: update_favorites_def)
    with assms show ?thesis by simp
  next
    case (Some old)
    with w UpdateFavorite have f': "favorites d' = map (\<lambda>x. if f_id x = fid then f else x) (favorites d)"
      and 1: "\<not> list_ex (\<lambda>x. f_id x \<noteq> fid \<and> f_id x = f_id f) (favorites d)"
      and 2: "\<not> list_ex (\<lambda>x. f_id x \<noteq> fid \<and> f_user_id x = f_user_id f \<and> f_vehicle_id x = f_vehicle_id f) (favorites d)"
      by (auto simp: update_favorites_def split: if_splits)
    from assms(1) 1 have "distinct (map f_id (map (\<lambda>x. if f_id x = fid then f else x) (favorites d)))"
      by (intro distinct_map_replace) (auto simp: favorites_unique_def list_ex_iff)
    moreover from assms(1) 2
    have "distinct (map (\<lambda>f. (f_user_id f, f_vehicle_id f)) (map (\<lambda>x. if f_id x = fid then f else x) (favorites d)))"
      by (intro distinct_map_replace) (auto simp: favorites_unique_def list_ex_iff)
    ultimately show ?thesis using f' by (simp add: favorites_unique_def)
  qed
next
  case (DeleteFavorite fid)
  with w have "favorites d' = filter (\<lambda>x. f_id x \<noteq> fid) (favorites d)"
    by (auto simp: delete_from_favorites_def)
  with assms show ?thesis by (simp add: favorites_unique_def distinct_map_filter)
next
  case (InsertReview r)
  with w have "favorites d' = favorites d"
    by (auto dest!: insert_review_effect update_vehicle_rating_frame)
  with assms show ?thesis by (simp add: favorites_unique_def)
next
  case (UpdateReview rid r)
  with w have "favorites d' = favorites d"
    by (auto simp: update_reviews_def split: option.splits if_splits dest!: update_vehicle_rating_frame)
  with assms show ?thesis by (simp add: favorites_unique_def)
next
  case (DeleteReview rid)
  with w have "favorites d' = favorites d"
    by (auto simp: delete_from_reviews_def split: option.splits if_splits dest!: update_vehicle_rating_frame)
  with assms show ?thesis by (simp add: favorites_unique_def)
next
  case (InsertProfile p)
  with w have "favorites d' = favorites d"
    by (auto simp: insert_into_profiles_def split: if_splits)
  with assms show ?thesis by (simp add: favorites_unique_def)
next
  case (UpdateProfile pid p)
  with w have "favorites d' = favorites d"
    by (auto simp: update_profiles_def split: option.splits if_splits)
  with assms show ?thesis by (simp add: favorites_unique_def)
next
  case (DeleteProfile pid)
  with w have "favorites d' = favorites d"
    by (auto simp: delete_from_profiles_def)
  with assms show ?thesis by (simp add: favorites_unique_def)
next
  case (InsertVehicle v)
  with w have "favorites d' = favorites d"
    by (auto simp: insert_into_vehicles_def split: option.splits if_splits)
  with assms show ?thesis by (simp add: favorites_unique_def)
next
  case (UpdateVehicle vid v)
  with w have "favorites d' = favorites d"
    by (auto simp: update_vehicles_def split: option.splits if_splits)
  with assms show ?thesis by (simp add: favorites_unique_def)
next
  case (InsertBooking b)
  with w have "favorites d' = favorites d"
    by (auto simp: insert_into_bookings_def split: option.splits if_splits)
  with assms show ?thesis by (simp add: favorites_unique_def)
next
  case (UpdateBooking bid b)
  with w have "favorites d' = favorites d"
    by (auto simp: update_bookings_def split: option.splits if_splits)
  with assms show ?thesis by (simp add: favorites_unique_def)
qed

lemma reachable_favorites_unique: "reachable d \<Longrightarrow> favorites_unique d"
proof (induction rule: reachable.induct)
  case (initial us gen)
  show ?case by (simp add: initial_db_def favorites_unique_def)
next
  case (step d w d')
  then show ?case using favorites_unique_write by blast
qed

text \<open>
  C8. In every reachable state no two rows of \<^verbatim>\<open>favorites\<close> have the same user and
  vehicle. Adding a favorite for a pair that is already there fails, whoever asks, so
  it never produces a second row for the pair.
\<close>

theorem favorite_pairs_unique:
  "(reachable d \<longrightarrow> distinct (map (\<lambda>f. (f_user_id f, f_vehicle_id f)) (favorites d)))
   \<and> ((\<exists>x\<in>set (favorites d). f_user_id x = f_user_id f \<and> f_vehicle_id x = f_vehicle_id f)
        \<longrightarrow> (\<exists>e. insert_favorite uid f d = Inl e) \<and> (\<exists>e. insert_into_favorites f d = Inl e))"
proof (intro conjI impI)
  assume "reachable d"
  then show "distinct (map (\<lambda>f. (f_user_id f, f_vehicle_id f)) (favorites d))"
    using reachable_favorites_unique by (simp add: favorites_unique_def)
next
  assume a: "\<exists>x\<in>set (favorites d). f_user_id x = f_user_id f \<and> f_vehicle_id x = f_vehicle_id f"
  then show "\<exists>e. insert_into_favorites f d = Inl e"
    by (auto simp: insert_into_favorites_def list_ex_iff)
  then show "\<exists>e. insert_favorite uid f d = Inl e"
    by (auto simp: insert_favorite_def)
qed

theorem favorite_pairs_unique_witness:
  "distinct (map (\<lambda>f. (f_user_id f, f_vehicle_id f)) (favorites db_fav))
   \<and> insert_favorite 7 (fav0\<lparr>f_id := 71\<rparr>) db_fav = Inl (UniqueViolation ''favorites_user_id_vehicle_id_key'')"
proof -
  from favorite_pairs_unique[of db_fav] reachable_db_fav
  have 1: "distinct (map (\<lambda>f. (f_user_id f, f_vehicle_id f)) (favorites db_fav))"
    by blast
  have "\<exists>x\<in>set (favorites db_fav). f_user_id x = f_user_id (fav0\<lparr>f_id := 71\<rparr>)
      \<and> f_vehicle_id x = f_vehicle_id (fav0\<lparr>f_id := 71\<rparr>)"
    by (simp add: db_fav_def)
  with favorite_pairs_unique[of db_fav "fav0\<lparr>f_id := 71\<rparr>" 7]
  obtain e where "insert_favorite 7 (fav0\<lparr>f_id := 71\<rparr>) db_fav = Inl e"
    by blast
  then have 2: "insert_favorite 7 (fav0\<lparr>f_id := 71\<rparr>) db_fav = Inl (UniqueViolation ''favorites_user_id_vehicle_id_key'')"
    by (simp add: insert_favorite_def favorites_policy_def write_defs example_defs)
  from 1 2 show ?thesis by simp
qed

subsection \<open>Administrators\<close>

text \<open>
  The query of \<^verbatim>\<open>getCurrentUser\<close> and \<^verbatim>\<open>signIn\<close> for the profile is aborted and its error
  discarded: what they report depends on the address alone, for \<^verbatim>\<open>signIn\<close> on the address
  typed in.
\<close>

lemma getCurrentUser_admin_by_address:
  "getCurrentUser (Some user) d = Some u \<Longrightarrow> usr_is_admin u = (u_email user = admin_email)"
  by (auto simp: getCurrentUser_def select_profile_no_data Let_def split: if_splits)

lemma signIn_admin_by_address:
  "signIn signInWithPassword email password d = Inr (user, a) \<Longrightarrow> a = (email = admin_email)"
  by (auto simp: signIn_def select_profile_no_data split: sum.splits if_splits)

text \<open>
  C9. \<^verbatim>\<open>getCurrentUser\<close> and \<^verbatim>\<open>signIn\<close> are to report an identity as administrator
  exactly when its address is the configured administrator address or its stored profile
  has \<^verbatim>\<open>is_admin = true\<close>. Their query for the profile is aborted and they go on without
  its data: Carol, whose stored profile has \<^verbatim>\<open>is_admin = true\<close>, is reported as no
  administrator by both.
\<close>

theorem stored_admin_flag_not_reported:
  "profiles db_office = [carol_profile]
   \<and> p_id carol_profile = u_id carol \<and> p_is_admin carol_profile = Some True
   \<and> map_option usr_is_admin (getCurrentUser (Some carol) db_office) = Some False
   \<and> signIn (\<lambda>email password. Inr carol) ''carol@example.com'' ''secret'' db_office
       = Inr (carol, False)"
  by (simp add: getCurrentUser_def signIn_def select_profile_no_data js_or_def admin_email_def
      Let_def example_defs)

text \<open>
  The dashboard's query for the revenue is aborted in every session and state, and the
  total computed from no data is zero, whatever the arithmetic of the numbers.
\<close>

lemma fetchDashboardStats_zero: "fetchDashboardStats J uid d = js_zero J"
  by (simp add: fetchDashboardStats_def revenueData_def totalRevenue_def session_statements_abort)

text \<open>
  C10. The dashboard's total revenue is to be the sum of \<^verbatim>\<open>total_price\<close> over the bookings
  with payment status \<^verbatim>\<open>completed\<close>. Its query is aborted and the total computed from no
  data: for Carol, an administrator by her profile, with one such booking of price 180 in
  the table, the total is zero.
\<close>

theorem dashboard_revenue_zero:
  "fetchDashboardStats J 9 db_office = js_zero J
   \<and> is_admin_profile db_office 9
   \<and> map b_total_price (filter (\<lambda>b. b_payment_status b = ''completed'') (bookings db_office)) = [180]"
  by (simp add: fetchDashboardStats_zero is_admin_profile_def example_defs)

end
